theory Spec2Isabelle
  imports Complex_Main "HOL-Library.Multiset"
begin

section \<open>Python values used by the document checker\<close>

text \<open>
  A Python \<^verbatim>\<open>str\<close> is a sequence of Unicode code points. The checker's messages and
  patterns contain CJK characters, so a string is modelled as the list of its code
  points; \<open>asc\<close> embeds an ASCII literal.
\<close>

type_synonym ustr = "nat list"

definition asc :: "string \<Rightarrow> ustr" where
  "asc s = map of_char s"

text \<open>\<^verbatim>\<open>str(n)\<close> for an integer: decimal digits, with a leading minus sign.\<close>

fun str_nat :: "nat \<Rightarrow> ustr" where
  "str_nat n = (if n < 10 then [48 + n] else str_nat (n div 10) @ [48 + n mod 10])"

declare str_nat.simps [simp del]

definition str_int :: "int \<Rightarrow> ustr" where
  "str_int i = (if i < 0 then 45 # str_nat (nat (- i)) else str_nat (nat i))"

text \<open>\<^verbatim>\<open>d.get(key, default)\<close> on a key that may be absent.\<close>

definition get_or :: "'a option \<Rightarrow> 'a \<Rightarrow> 'a" where
  "get_or v d = (case v of None \<Rightarrow> d | Some x \<Rightarrow> x)"

text \<open>The exceptions the modelled code can raise.\<close>

datatype py_error = KeyError | AttributeError | IndexError | TypeError | OverflowError

definition bind_err :: "py_error + 'a \<Rightarrow> ('a \<Rightarrow> py_error + 'b) \<Rightarrow> py_error + 'b" where
  "bind_err r f = (case r of Inl e \<Rightarrow> Inl e | Inr x \<Rightarrow> f x)"

text \<open>
  A key that the code reads by subscription (\<^verbatim>\<open>d[key]\<close>). The key can be absent, and
  the read raises \<^verbatim>\<open>KeyError\<close>; it can be present with the value \<^verbatim>\<open>None\<close>, and the read
  returns \<^verbatim>\<open>None\<close> like any other value. A Python value that may be \<^verbatim>\<open>None\<close> is an
  option.
\<close>

datatype 'a entry = Absent | Null | Val 'a

text \<open>\<^verbatim>\<open>d[key]\<close>, \<^verbatim>\<open>d.get(key)\<close>, \<^verbatim>\<open>d.get(key, default)\<close> and the entry written by \<^verbatim>\<open>{key: v}\<close>.\<close>

definition subscript :: "'a entry \<Rightarrow> py_error + 'a option" where
  "subscript e = (case e of Absent \<Rightarrow> Inl KeyError | Null \<Rightarrow> Inr None | Val x \<Rightarrow> Inr (Some x))"

definition get_key :: "'a entry \<Rightarrow> 'a option" where
  "get_key e = (case e of Absent \<Rightarrow> None | Null \<Rightarrow> None | Val x \<Rightarrow> Some x)"

definition get_key_or :: "'a entry \<Rightarrow> 'a option \<Rightarrow> 'a option" where
  "get_key_or e d = (case e of Absent \<Rightarrow> d | Null \<Rightarrow> None | Val x \<Rightarrow> Some x)"

definition store :: "'a option \<Rightarrow> 'a entry" where
  "store v = (case v of None \<Rightarrow> Null | Some x \<Rightarrow> Val x)"

section \<open>Python numbers\<close>

text \<open>
  A number of the parsed document or of a rule is a Python \<^verbatim>\<open>int\<close>, which is unbounded,
  or a Python \<^verbatim>\<open>float\<close>, an IEEE 754 double: a finite value, an infinity or a NaN. The
  finite doubles are the reals \<open>m * 2 ^ e\<close> with \<open>\<bar>m\<bar> < 2 ^ 53\<close> and
  \<open>- 1074 \<le> e \<le> 971\<close>. The sign of a zero is not kept: no operation of the checker
  reads it.
\<close>

datatype fl = Fin real | PosInf | NegInf | NaN

datatype pynum = PInt int | PFloat fl

text \<open>Rounding to the nearest integer, a tie going to the even one.\<close>

definition round_half_even :: "real \<Rightarrow> int" where
  "round_half_even x =
     (let f = \<lfloor>x\<rfloor>; d = x - of_int f
      in if d < 1 / 2 then f
         else if d > 1 / 2 then f + 1
         else if even f then f else f + 1)"

text \<open>\<^verbatim>\<open>int.bit_length()\<close>: the number of binary digits of a natural number.\<close>

fun bit_length :: "nat \<Rightarrow> nat" where
  "bit_length n = (if n = 0 then 0 else Suc (bit_length (n div 2)))"

declare bit_length.simps [simp del]

text \<open>
  The exponent of the unit in the last place of the doubles around \<open>x\<close>: for
  \<open>2 ^ k \<le> \<bar>x\<bar> < 2 ^ (k + 1)\<close> it is \<open>k - 52\<close>, and never below \<open>- 1074\<close>, the exponent of
  the subnormal doubles. The binade \<open>k\<close> is read from the number of binary digits of the
  integer part of \<open>\<bar>x\<bar> * 2 ^ 1074\<close>.
\<close>

definition ulp_exponent :: "real \<Rightarrow> int" where
  "ulp_exponent x = max (int (bit_length (nat \<lfloor>\<bar>x\<bar> * 2 ^ 1074\<rfloor>)) - 1127) (- 1074)"

text \<open>
  The exact result \<open>x\<close> of an operation rounded to a double, in the default rounding mode
  (to nearest, ties to even) and with the exponent unbounded above; the operations below
  turn a result of magnitude \<open>2 ^ 1024\<close> or more into an infinity.
\<close>

definition round_double :: "real \<Rightarrow> real" where
  "round_double x =
     (let e = ulp_exponent x
      in of_int (round_half_even (x * 2 powi (- e))) * 2 powi e)"

definition to_float :: "real \<Rightarrow> fl" where
  "to_float x =
     (let r = round_double x
      in if r \<ge> 2 ^ 1024 then PosInf else if r \<le> - (2 ^ 1024) then NegInf else Fin r)"

text \<open>
  The conversion of an operand to \<^verbatim>\<open>float\<close> in mixed arithmetic. An int is rounded to
  the nearest double; \<^verbatim>\<open>OverflowError\<close> is raised when it is too large for a double.
\<close>

definition as_float :: "pynum \<Rightarrow> py_error + fl" where
  "as_float n =
     (case n of
        PFloat f \<Rightarrow> Inr f
      | PInt i \<Rightarrow>
          (let r = round_double (of_int i)
           in if \<bar>r\<bar> \<ge> 2 ^ 1024 then Inl OverflowError else Inr (Fin r)))"

text \<open>\<^verbatim>\<open>a - b\<close> on two floats.\<close>

fun fl_sub :: "fl \<Rightarrow> fl \<Rightarrow> fl" where
  "fl_sub NaN b = NaN"
| "fl_sub a NaN = NaN"
| "fl_sub PosInf PosInf = NaN"
| "fl_sub NegInf NegInf = NaN"
| "fl_sub PosInf b = PosInf"
| "fl_sub NegInf b = NegInf"
| "fl_sub (Fin x) PosInf = NegInf"
| "fl_sub (Fin x) NegInf = PosInf"
| "fl_sub (Fin x) (Fin y) = to_float (x - y)"

text \<open>\<^verbatim>\<open>a * b\<close> on two floats.\<close>

definition fl_sign :: "fl \<Rightarrow> int" where
  "fl_sign a = (case a of Fin x \<Rightarrow> \<lfloor>sgn x\<rfloor> | PosInf \<Rightarrow> 1 | NegInf \<Rightarrow> - 1 | NaN \<Rightarrow> 0)"

definition fl_mul :: "fl \<Rightarrow> fl \<Rightarrow> fl" where
  "fl_mul a b =
     (case (a, b) of
        (Fin x, Fin y) \<Rightarrow> to_float (x * y)
      | _ \<Rightarrow>
          if a = NaN \<or> b = NaN \<or> fl_sign a * fl_sign b = 0 then NaN
          else if fl_sign a * fl_sign b > 0 then PosInf else NegInf)"

text \<open>
  \<^verbatim>\<open>a - b\<close> and \<^verbatim>\<open>a * b\<close> on numbers: exact on two ints, in floating point as soon as one
  operand is a float.
\<close>

definition py_sub :: "pynum \<Rightarrow> pynum \<Rightarrow> py_error + pynum" where
  "py_sub a b =
     (case (a, b) of
        (PInt i, PInt j) \<Rightarrow> Inr (PInt (i - j))
      | _ \<Rightarrow> bind_err (as_float a) (\<lambda>x. bind_err (as_float b) (\<lambda>y. Inr (PFloat (fl_sub x y)))))"

definition py_mul :: "pynum \<Rightarrow> pynum \<Rightarrow> py_error + pynum" where
  "py_mul a b =
     (case (a, b) of
        (PInt i, PInt j) \<Rightarrow> Inr (PInt (i * j))
      | _ \<Rightarrow> bind_err (as_float a) (\<lambda>x. bind_err (as_float b) (\<lambda>y. Inr (PFloat (fl_mul x y)))))"

text \<open>\<^verbatim>\<open>abs(a)\<close>.\<close>

definition py_abs :: "pynum \<Rightarrow> pynum" where
  "py_abs a =
     (case a of
        PInt i \<Rightarrow> PInt \<bar>i\<bar>
      | PFloat (Fin x) \<Rightarrow> PFloat (Fin \<bar>x\<bar>)
      | PFloat PosInf \<Rightarrow> PFloat PosInf
      | PFloat NegInf \<Rightarrow> PFloat PosInf
      | PFloat NaN \<Rightarrow> PFloat NaN)"

text \<open>
  \<^verbatim>\<open>a > b\<close> and \<^verbatim>\<open>a < b\<close>. Python compares an int with a float by their exact values, with
  no rounding of the int; every comparison with a NaN is false.
\<close>

definition exact :: "pynum \<Rightarrow> fl" where
  "exact n = (case n of PInt i \<Rightarrow> Fin (of_int i) | PFloat f \<Rightarrow> f)"

fun fl_gt :: "fl \<Rightarrow> fl \<Rightarrow> bool" where
  "fl_gt NaN b = False"
| "fl_gt a NaN = False"
| "fl_gt NegInf b = False"
| "fl_gt a NegInf = True"
| "fl_gt PosInf PosInf = False"
| "fl_gt PosInf (Fin y) = True"
| "fl_gt (Fin x) PosInf = False"
| "fl_gt (Fin x) (Fin y) = (x > y)"

definition py_gt :: "pynum \<Rightarrow> pynum \<Rightarrow> bool" where
  "py_gt a b = fl_gt (exact a) (exact b)"

definition py_lt :: "pynum \<Rightarrow> pynum \<Rightarrow> bool" where
  "py_lt a b = fl_gt (exact b) (exact a)"

text \<open>The truth value of a number: zero is false, everything else is true.\<close>

definition py_truth :: "pynum \<Rightarrow> bool" where
  "py_truth a = (case a of PInt i \<Rightarrow> i \<noteq> 0 | PFloat (Fin x) \<Rightarrow> x \<noteq> 0 | PFloat _ \<Rightarrow> True)"

text \<open>
  A float literal such as \<^verbatim>\<open>25.4\<close>, in the source or in the JSON of a rule: the double
  nearest to the decimal number.
\<close>

definition float_literal :: "real \<Rightarrow> pynum" where
  "float_literal x = PFloat (to_float x)"

text \<open>
  Rule identifiers are strings for the stored rules (\<^verbatim>\<open>"PAGE_MARGIN_25"\<close>) and
  integers for the rules generated from a template (\<^verbatim>\<open>1000, 1001, ...\<close>).
\<close>

datatype rid = RStr ustr | RInt int

section \<open>Locations and issues\<close>

text \<open>
  A location is a dictionary tagged by \<^verbatim>\<open>"type"\<close>. Every key is optional and is read
  with \<^verbatim>\<open>.get\<close>; \<open>None\<close> stands for a key that is absent (or holds \<^verbatim>\<open>None\<close>).
\<close>

record location =
  l_type :: "ustr option"
  l_index :: "int option"
  l_paragraph_index :: "int option"
  l_page_number :: "int option"
  l_start_line :: "int option"
  l_end_line :: "int option"
  l_level :: "int option"
  l_text :: "ustr option"
  l_description :: "ustr option"
  l_count :: "int option"

definition empty_location :: location where
  "empty_location = \<lparr> l_type = None, l_index = None, l_paragraph_index = None,
     l_page_number = None, l_start_line = None, l_end_line = None, l_level = None,
     l_text = None, l_description = None, l_count = None \<rparr>"

text \<open>The per-level style dictionary of a heading rule or of a heading fix.\<close>

record level_condition =
  lc_font :: "ustr option"
  lc_size_pt :: "pynum option"
  lc_bold :: "bool option"
  lc_alignment :: "ustr option"

text \<open>The parameters of a fix action, as \<^verbatim>\<open>RevisionEngine._apply_fix\<close> reads them.\<close>

record fix_params =
  fp_top_mm :: "pynum option"
  fp_bottom_mm :: "pynum option"
  fp_left_mm :: "pynum option"
  fp_right_mm :: "pynum option"
  fp_first_line_indent_chars :: "pynum option"
  fp_levels :: "(ustr \<times> level_condition) list"
  fp_chinese_font :: "ustr option"
  fp_size_pt :: "pynum option"
  fp_original :: "ustr option"
  fp_correction :: "ustr option"
  fp_original_ref :: "ustr option"
  fp_suggested_ref :: "ustr option"

text \<open>One entry of the page-grouped display list.\<close>

record page_group =
  pg_page :: int
  pg_items :: "ustr list"
  pg_all_items :: "ustr list"
  pg_total :: nat
  pg_has_more :: bool

text \<open>
  An issue dictionary. The keys \<^verbatim>\<open>rule_id\<close>, \<^verbatim>\<open>rule_name\<close>, \<^verbatim>\<open>category\<close>,
  \<^verbatim>\<open>error_message\<close>, \<^verbatim>\<open>suggestion\<close> and \<^verbatim>\<open>location\<close> are read by subscription
  (\<^verbatim>\<open>issue["rule_id"]\<close>) or with a default (\<^verbatim>\<open>issue.get("suggestion", "")\<close>), so each is
  an entry: a rule loaded from the database has \<^verbatim>\<open>None\<close> in its nullable columns, and
  the issue made from it holds the key with the value \<^verbatim>\<open>None\<close>. The other keys are only
  read with \<^verbatim>\<open>.get(key)\<close>, which does not tell an absent key from \<^verbatim>\<open>None\<close>.
  \<^verbatim>\<open>locations_list\<close> and \<^verbatim>\<open>raw_locations\<close> exist only on merged issues.
\<close>

record issue =
  rule_id :: "rid entry"
  rule_name :: "ustr entry"
  category :: "ustr entry"
  error_message :: "ustr entry"
  suggestion :: "ustr entry"
  fix_action :: "ustr option"
  fix_params :: "fix_params option"
  location :: "location entry"
  locations_list :: "page_group list option"
  raw_locations :: "location list option"

section \<open>RuleEngine: merging issues by rule\<close>

subsection \<open>_merge_locations\<close>

definition merge_locations :: "location list \<Rightarrow> location" where
  "merge_locations locations =
     (if locations = [] then
        empty_location \<lparr> l_type := Some (asc ''unknown''),
                         l_description := Some [26410, 30693, 20301, 32622] \<rparr>
      else
        let count = int (length locations) in
        empty_location \<lparr> l_type := Some (asc ''merged''),
                         l_description := Some ([20849] @ str_int count @ [22788, 20301, 32622]),
                         l_count := Some count \<rparr>)"

subsection \<open>Collapsing consecutive locations into display strings\<close>

text \<open>The de-duplication loop: keep the first location of every key, in order.\<close>

fun unique_by :: "('a \<Rightarrow> 'k) \<Rightarrow> 'k set \<Rightarrow> 'a list \<Rightarrow> 'a list" where
  "unique_by f seen [] = []"
| "unique_by f seen (x # xs) =
     (if f x \<in> seen then unique_by f seen xs
      else x # unique_by f (insert (f x) seen) xs)"

definition loc_paragraph_index :: "location \<Rightarrow> int" where
  "loc_paragraph_index loc = get_or (l_paragraph_index loc) 0"

definition loc_index :: "location \<Rightarrow> int" where
  "loc_index loc = get_or (l_index loc) 0"

definition loc_start_line :: "location \<Rightarrow> int" where
  "loc_start_line loc = get_or (l_start_line loc) 1"

definition loc_end_line :: "location \<Rightarrow> int" where
  "loc_end_line loc = get_or (l_end_line loc) (loc_start_line loc)"

text \<open>
  The inner \<^verbatim>\<open>while j < len(unique_locs)\<close> loop shared by the run and figure variants:
  advance \<open>j\<close> while the key at \<open>j\<close> is \<open>start_idx + (j - i)\<close>.
\<close>

function scan_consecutive ::
  "(location \<Rightarrow> int) \<Rightarrow> location list \<Rightarrow> int \<Rightarrow> nat \<Rightarrow> nat \<Rightarrow> nat" where
  "scan_consecutive key unique_locs start_idx i j =
     (if j < length unique_locs then
        (if key (unique_locs ! j) = start_idx + (int j - int i)
         then scan_consecutive key unique_locs start_idx i (j + 1)
         else j)
      else j)"
  by pat_completeness auto
termination
  by (relation "measure (\<lambda>(key, us, s, i, j). length us - j)") auto

declare scan_consecutive.simps [simp del]

lemma scan_consecutive_ge: "j \<le> scan_consecutive key us s i j"
proof (induction key us s i j rule: scan_consecutive.induct)
  case (1 key us s i j)
  show ?case
  proof (cases "j < length us \<and> key (us ! j) = s + (int j - int i)")
    case True
    with 1 have "j + 1 \<le> scan_consecutive key us s i (j + 1)" by simp
    with True show ?thesis by (subst scan_consecutive.simps) simp
  next
    case False
    then show ?thesis by (subst scan_consecutive.simps) auto
  qed
qed

lemma scan_consecutive_le:
  "j \<le> length us \<Longrightarrow> scan_consecutive key us s i j \<le> length us"
proof (induction key us s i j rule: scan_consecutive.induct)
  case (1 key us s i j)
  show ?case
  proof (cases "j < length us \<and> key (us ! j) = s + (int j - int i)")
    case True
    with 1 have "scan_consecutive key us s i (j + 1) \<le> length us" by simp
    with True show ?thesis by (subst scan_consecutive.simps) simp
  next
    case False
    with 1 show ?thesis by (subst scan_consecutive.simps) auto
  qed
qed

text \<open>
  The outer \<^verbatim>\<open>while i < len(unique_locs)\<close> loop of \<^verbatim>\<open>_merge_consecutive_runs\<close> and
  \<^verbatim>\<open>_merge_consecutive_figures\<close>. The two source loops differ only in the key they read
  and in the two format strings, which are the parameters here. A stretch of three or
  more consecutive keys becomes one "from~to" string, a shorter one is listed
  item by item.
\<close>

function merge_loop ::
  "(location \<Rightarrow> int) \<Rightarrow> (int \<Rightarrow> int \<Rightarrow> ustr) \<Rightarrow> (int \<Rightarrow> ustr) \<Rightarrow>
   location list \<Rightarrow> nat \<Rightarrow> ustr list \<Rightarrow> ustr list" where
  "merge_loop key range_str one_str unique_locs i merged =
     (if i < length unique_locs then
        (let start_idx = key (unique_locs ! i);
             j = scan_consecutive key unique_locs start_idx i (i + 1)
         in merge_loop key range_str one_str unique_locs j
              (if j - i \<ge> 3
               then merged @ [range_str start_idx (key (unique_locs ! (j - 1)))]
               else merged @ map (\<lambda>k. one_str (key (unique_locs ! k))) [i..<j]))
      else merged)"
  by pat_completeness auto
termination
proof (relation "measure (\<lambda>(key, r, e, us, i, m). length us - i)", goal_cases)
  case 1
  show ?case by simp
next
  case (2 key range_str one_str us i merged start j)
  have "i + 1 \<le> scan_consecutive key us (key (us ! i)) i (i + 1)"
    by (rule scan_consecutive_ge)
  with 2 show ?case by simp
qed

declare merge_loop.simps [simp del]

definition merge_consecutive_runs :: "location list \<Rightarrow> ustr list" where
  "merge_consecutive_runs run_locs =
     (if run_locs = [] then []
      else
        let sorted_locs = sort_key loc_paragraph_index run_locs;
            unique_locs = unique_by loc_paragraph_index {} sorted_locs
        in merge_loop loc_paragraph_index
             (\<lambda>start_idx end_idx.
                [31532] @ str_int (start_idx + 1) @ [126] @ str_int (end_idx + 1) @ [27573])
             (\<lambda>idx. [31532] @ str_int (idx + 1) @ [27573])
             unique_locs 0 [])"

definition merge_consecutive_figures :: "location list \<Rightarrow> ustr list" where
  "merge_consecutive_figures figure_locs =
     (if figure_locs = [] then []
      else
        let sorted_locs = sort_key loc_index figure_locs;
            unique_locs = unique_by loc_index {} sorted_locs
        in merge_loop loc_index
             (\<lambda>start_idx end_idx.
                [31532] @ str_int (start_idx + 1) @ [126] @ str_int (end_idx + 1)
                  @ [20010, 22270, 34920])
             (\<lambda>idx. [31532] @ str_int (idx + 1) @ [20010, 22270, 34920])
             unique_locs 0 [])"

text \<open>
  \<^verbatim>\<open>_merge_consecutive_paragraphs\<close>: the inner loop also requires the line ranges to be
  contiguous and carries the running \<^verbatim>\<open>end_line\<close>.
\<close>

function scan_paragraphs ::
  "location list \<Rightarrow> int \<Rightarrow> nat \<Rightarrow> nat \<Rightarrow> int \<Rightarrow> nat \<times> int" where
  "scan_paragraphs unique_locs start_idx i j end_line =
     (if j < length unique_locs then
        (let next_idx = loc_index (unique_locs ! j);
             next_start = loc_start_line (unique_locs ! j);
             next_end = loc_end_line (unique_locs ! j)
         in if next_idx = start_idx + (int j - int i) \<and> next_start = end_line + 1
            then scan_paragraphs unique_locs start_idx i (j + 1) next_end
            else (j, end_line))
      else (j, end_line))"
  by pat_completeness auto
termination
  by (relation "measure (\<lambda>(us, s, i, j, e). length us - j)") auto

declare scan_paragraphs.simps [simp del]

lemma scan_paragraphs_ge: "j \<le> fst (scan_paragraphs us s i j e)"
proof (induction us s i j e rule: scan_paragraphs.induct)
  case (1 us s i j e)
  show ?case
  proof (cases "j < length us \<and> loc_index (us ! j) = s + (int j - int i)
                 \<and> loc_start_line (us ! j) = e + 1")
    case True
    with 1 have "j + 1 \<le> fst (scan_paragraphs us s i (j + 1) (loc_end_line (us ! j)))"
      by simp
    with True show ?thesis by (subst scan_paragraphs.simps) simp
  next
    case False
    then show ?thesis by (subst scan_paragraphs.simps) (auto simp: Let_def)
  qed
qed

definition paragraph_item :: "location \<Rightarrow> ustr" where
  "paragraph_item loc =
     (let idx = loc_index loc; s = loc_start_line loc; e = loc_end_line loc
      in if s = e
         then [31532] @ str_int (idx + 1) @ [27573, 40, 31532] @ str_int s @ [34892, 41]
         else [31532] @ str_int (idx + 1) @ [27573, 40] @ str_int s @ [126] @ str_int e
                @ [34892, 41])"

function merge_paragraphs_loop :: "location list \<Rightarrow> nat \<Rightarrow> ustr list \<Rightarrow> ustr list" where
  "merge_paragraphs_loop unique_locs i merged =
     (if i < length unique_locs then
        (let start_idx = loc_index (unique_locs ! i);
             start_line = loc_start_line (unique_locs ! i);
             r = scan_paragraphs unique_locs start_idx i (i + 1) (loc_end_line (unique_locs ! i));
             j = fst r;
             end_line = snd r
         in merge_paragraphs_loop unique_locs j
              (if j - i \<ge> 3 then
                 (if start_line = end_line
                  then merged @ [[31532] @ str_int (start_idx + 1) @ [126]
                         @ str_int (loc_index (unique_locs ! (j - 1)) + 1)
                         @ [27573, 40, 31532] @ str_int start_line @ [34892, 41]]
                  else merged @ [[31532] @ str_int (start_idx + 1) @ [126]
                         @ str_int (loc_index (unique_locs ! (j - 1)) + 1)
                         @ [27573, 40, 31532] @ str_int start_line @ [126]
                         @ str_int end_line @ [34892, 41]])
               else merged @ map (\<lambda>k. paragraph_item (unique_locs ! k)) [i..<j]))
      else merged)"
  by pat_completeness auto
termination
proof (relation "measure (\<lambda>(us, i, m). length us - i)", goal_cases)
  case 1
  show ?case by simp
next
  case (2 us i merged start_idx start_line r j end_line)
  have "i + 1 \<le> fst (scan_paragraphs us (loc_index (us ! i)) i (i + 1) (loc_end_line (us ! i)))"
    by (rule scan_paragraphs_ge)
  with 2 show ?case by simp
qed

declare merge_paragraphs_loop.simps [simp del]

definition merge_consecutive_paragraphs :: "location list \<Rightarrow> ustr list" where
  "merge_consecutive_paragraphs para_locs =
     (if para_locs = [] then []
      else merge_paragraphs_loop (unique_by loc_index {} para_locs) 0 [])"

subsection \<open>_build_locations_list\<close>

text \<open>
  A Python \<^verbatim>\<open>dict\<close> whose values are lists, as an association list in insertion order.
  \<open>dict_append k v d\<close> is
  \<^verbatim>\<open>if k not in d: d[k] = []\<close> followed by \<^verbatim>\<open>d[k].append(v)\<close>.
\<close>

fun dict_append :: "'k \<Rightarrow> 'v \<Rightarrow> ('k \<times> 'v list) list \<Rightarrow> ('k \<times> 'v list) list" where
  "dict_append k v [] = [(k, [v])]"
| "dict_append k v ((k', vs) # rest) =
     (if k' = k then (k', vs @ [v]) # rest else (k', vs) # dict_append k v rest)"

definition loc_page :: "location \<Rightarrow> int" where
  "loc_page loc = get_or (l_page_number loc) 1"

definition group_by_page :: "location list \<Rightarrow> (int \<times> location list) list" where
  "group_by_page locations = foldl (\<lambda>pages loc. dict_append (loc_page loc) loc pages) [] locations"

definition page_all_items :: "location list \<Rightarrow> ustr list" where
  "page_all_items page_locs =
     (let run_locs = filter (\<lambda>loc. l_type loc = Some (asc ''run'')) page_locs;
          para_locs = filter (\<lambda>loc. l_type loc = Some (asc ''paragraph'')) page_locs;
          figure_locs = filter (\<lambda>loc. l_type loc = Some (asc ''figure'')) page_locs;
          other_locs = filter (\<lambda>loc. l_type loc \<noteq> Some (asc ''run'')
                                  \<and> l_type loc \<noteq> Some (asc ''paragraph'')
                                  \<and> l_type loc \<noteq> Some (asc ''figure'')) page_locs
      in (if run_locs \<noteq> []
          then merge_consecutive_runs (sort_key loc_paragraph_index run_locs) else [])
       @ (if para_locs \<noteq> []
          then merge_consecutive_paragraphs (sort_key loc_index para_locs) else [])
       @ (if figure_locs \<noteq> []
          then merge_consecutive_figures (sort_key loc_index figure_locs) else [])
       @ map (\<lambda>loc. get_or (l_description loc) []) other_locs)"

definition page_entry :: "int \<times> location list \<Rightarrow> page_group" where
  "page_entry e =
     (let page = fst e; page_locs = snd e; all_items = page_all_items page_locs
      in \<lparr> pg_page = page,
           pg_items = take 20 all_items,
           pg_all_items = all_items,
           pg_total = length page_locs,
           pg_has_more = (length all_items > 20) \<rparr>)"

text \<open>
  \<^verbatim>\<open>for page in sorted(pages.keys()): page_locs = pages[page]\<close> visits the entries of the
  dictionary in the order of their keys; the keys of a dictionary are distinct, so this is
  the entries sorted by key.
\<close>

definition build_locations_list :: "location list \<Rightarrow> page_group list" where
  "build_locations_list locations =
     (if locations = [] then []
      else map page_entry (sort_key fst (group_by_page locations)))"

subsection \<open>_merge_issues_by_rule\<close>

text \<open>
  The value stored in \<^verbatim>\<open>grouped[rule_id]\<close>: the five values read from the first issue
  of the rule (each may be \<^verbatim>\<open>None\<close>), the two read with \<^verbatim>\<open>.get\<close>, and the list of
  the \<^verbatim>\<open>location\<close> values appended so far (a location may be \<^verbatim>\<open>None\<close> as well).
\<close>

record group_data =
  g_rule_id :: "rid option"
  g_rule_name :: "ustr option"
  g_category :: "ustr option"
  g_error_message :: "ustr option"
  g_suggestion :: "ustr option"
  g_fix_action :: "ustr option"
  g_fix_params :: "fix_params option"
  g_locations :: "location option list"

definition new_group :: "issue \<Rightarrow> py_error + group_data" where
  "new_group issue =
     bind_err (subscript (rule_id issue)) (\<lambda>r.
     bind_err (subscript (rule_name issue)) (\<lambda>name.
     bind_err (subscript (category issue)) (\<lambda>cat.
     bind_err (subscript (error_message issue)) (\<lambda>msg.
     bind_err (subscript (suggestion issue)) (\<lambda>sug.
       Inr \<lparr> g_rule_id = r, g_rule_name = name, g_category = cat,
             g_error_message = msg, g_suggestion = sug,
             g_fix_action = fix_action issue, g_fix_params = fix_params issue,
             g_locations = [] \<rparr>)))))"

text \<open>\<^verbatim>\<open>grouped[rule_id]["locations"].append(loc)\<close> for a key that is present.\<close>

fun group_append ::
  "rid option \<Rightarrow> location option \<Rightarrow> (rid option \<times> group_data) list
     \<Rightarrow> (rid option \<times> group_data) list" where
  "group_append r loc [] = []"
| "group_append r loc ((k, g) # rest) =
     (if k = r then (k, g \<lparr> g_locations := g_locations g @ [loc] \<rparr>) # rest
      else (k, g) # group_append r loc rest)"

text \<open>One iteration of the grouping loop. The dictionary key may be \<^verbatim>\<open>None\<close>.\<close>

definition group_step ::
  "(rid option \<times> group_data) list \<Rightarrow> issue \<Rightarrow> py_error + (rid option \<times> group_data) list" where
  "group_step grouped issue =
     bind_err (subscript (rule_id issue)) (\<lambda>r.
     bind_err (if r \<in> fst ` set grouped then Inr grouped
               else bind_err (new_group issue) (\<lambda>g. Inr (grouped @ [(r, g)]))) (\<lambda>grouped'.
     bind_err (subscript (location issue)) (\<lambda>loc.
       Inr (group_append r loc grouped'))))"

fun group_issues ::
  "(rid option \<times> group_data) list \<Rightarrow> issue list \<Rightarrow> py_error + (rid option \<times> group_data) list" where
  "group_issues grouped [] = Inr grouped"
| "group_issues grouped (issue # issues) =
     bind_err (group_step grouped issue) (\<lambda>grouped'. group_issues grouped' issues)"

text \<open>
  The merged issue of one group. \<^verbatim>\<open>_merge_locations\<close> reads only the length of the list;
  \<^verbatim>\<open>_build_locations_list\<close> calls \<^verbatim>\<open>loc.get\<close> on every location, which raises
  \<^verbatim>\<open>AttributeError\<close> on \<^verbatim>\<open>None\<close>.
\<close>

definition merged_issue :: "group_data \<Rightarrow> py_error + issue" where
  "merged_issue issue_data =
     (if None \<in> set (g_locations issue_data) then Inl AttributeError
      else
        let locations = map the (g_locations issue_data)
        in Inr \<lparr> rule_id = store (g_rule_id issue_data),
                 rule_name = store (g_rule_name issue_data),
                 category = store (g_category issue_data),
                 error_message = store (g_error_message issue_data),
                 suggestion = store (g_suggestion issue_data),
                 fix_action = g_fix_action issue_data,
                 fix_params = g_fix_params issue_data,
                 location = Val (merge_locations locations),
                 locations_list = Some (build_locations_list locations),
                 raw_locations = Some locations \<rparr>)"

fun build_merged :: "group_data list \<Rightarrow> py_error + issue list" where
  "build_merged [] = Inr []"
| "build_merged (issue_data # rest) =
     bind_err (merged_issue issue_data) (\<lambda>m.
     bind_err (build_merged rest) (\<lambda>ms. Inr (m # ms)))"

definition merge_issues_by_rule :: "issue list \<Rightarrow> py_error + issue list" where
  "merge_issues_by_rule issues =
     bind_err (group_issues [] issues) (\<lambda>grouped. build_merged (map snd grouped))"

section \<open>Python strings and lists\<close>

text \<open>
  \<^verbatim>\<open>str.strip()\<close> and the regular-expression class \<^verbatim>\<open>\s\<close> use the same set of Unicode
  whitespace characters.
\<close>

definition py_isspace :: "nat \<Rightarrow> bool" where
  "py_isspace c =
     (c \<in> {9, 10, 11, 12, 13, 28, 29, 30, 31, 32, 133, 160, 5760}
      \<or> (8192 \<le> c \<and> c \<le> 8202)
      \<or> c \<in> {8232, 8233, 8239, 8287, 12288})"

definition strip :: "ustr \<Rightarrow> ustr" where
  "strip s = rev (dropWhile py_isspace (rev (dropWhile py_isspace s)))"

text \<open>
  The class \<^verbatim>\<open>\d\<close> on a \<^verbatim>\<open>str\<close> pattern is the Unicode decimal digits (category Nd).
  They come in runs of ten; \<open>nd_zeros\<close> lists the digit zero of every run (Unicode 14).
\<close>

definition nd_zeros :: "nat list" where
  "nd_zeros =
     [48, 1632, 1776, 1984, 2406, 2534, 2662, 2790, 2918, 3046, 3174, 3302, 3430, 3558, 3664,
      3792, 3872, 4160, 4240, 6112, 6160, 6470, 6608, 6784, 6800, 6992, 7088, 7232, 7248,
      42528, 43216, 43264, 43472, 43504, 43600, 44016, 65296, 66720, 68912, 69734, 69872,
      69942, 70096, 70384, 70736, 70864, 71248, 71360, 71472, 71904, 72016, 72784, 73040,
      73120, 92768, 92864, 93008, 120782, 120792, 120802, 120812, 120822, 123200, 123632,
      125264, 130032]"

definition re_digit :: "nat \<Rightarrow> bool" where
  "re_digit c = list_ex (\<lambda>z. z \<le> c \<and> c < z + 10) nd_zeros"

text \<open>\<^verbatim>\<open>s.startswith(p)\<close> and \<^verbatim>\<open>needle in hay\<close> on strings.\<close>

fun startswith :: "ustr \<Rightarrow> ustr \<Rightarrow> bool" where
  "startswith s [] = True"
| "startswith [] (p # ps) = False"
| "startswith (c # cs) (p # ps) = (c = p \<and> startswith cs ps)"

fun contains_str :: "ustr \<Rightarrow> ustr \<Rightarrow> bool" where
  "contains_str [] needle = (needle = [])"
| "contains_str (c # cs) needle = (startswith (c # cs) needle \<or> contains_str cs needle)"

text \<open>An optional string inside an f-string: \<^verbatim>\<open>None\<close> is printed as \<^verbatim>\<open>None\<close>.\<close>

definition str_opt :: "ustr option \<Rightarrow> ustr" where
  "str_opt v = (case v of None \<Rightarrow> asc ''None'' | Some s \<Rightarrow> s)"

text \<open>\<^verbatim>\<open>xs[i]\<close>: a negative index counts from the end; out of range raises.\<close>

definition py_index :: "'a list \<Rightarrow> int \<Rightarrow> py_error + 'a" where
  "py_index xs i =
     (if 0 \<le> i \<and> i < int (length xs) then Inr (xs ! nat i)
      else if i < 0 \<and> - int (length xs) \<le> i then Inr (xs ! nat (int (length xs) + i))
      else Inl IndexError)"

text \<open>\<^verbatim>\<open>d[k] = v\<close> on a dictionary kept in insertion order.\<close>

fun dict_set :: "'k \<Rightarrow> 'v \<Rightarrow> ('k \<times> 'v) list \<Rightarrow> ('k \<times> 'v) list" where
  "dict_set k v [] = [(k, v)]"
| "dict_set k v ((k', v') # rest) =
     (if k' = k then (k, v) # rest else (k', v') # dict_set k v rest)"


section \<open>The document snapshot\<close>

text \<open>
  The parser's dictionaries. A key read with \<^verbatim>\<open>.get\<close> is an option; a key that is
  present holds a value of its type or \<^verbatim>\<open>None\<close>, as the parser writes them.
\<close>

record font =
  f_name :: "ustr option"
  f_size_pt :: "pynum option"
  f_bold :: "bool option"

record formatting =
  fm_first_line_indent_chars :: "pynum option"
  fm_line_spacing_pt :: "pynum option"
  fm_line_spacing :: "pynum option"

record margins =
  m_top_mm :: "pynum option"
  m_bottom_mm :: "pynum option"
  m_left_mm :: "pynum option"
  m_right_mm :: "pynum option"

record paper_size =
  ps_width_mm :: "pynum option"
  ps_height_mm :: "pynum option"

record page_settings =
  p_margins :: "margins option"
  p_paper_size :: "paper_size option"

text \<open>
  A check target: a paragraph, run, heading, table or figure dictionary, a section or
  style dictionary built by the engine, or the document itself. The record has the keys
  that the engine reads from any of them; \<open>t_headings\<close> is the \<^verbatim>\<open>"text"\<close> entry of every
  heading of the document, the only part of \<^verbatim>\<open>"headings"\<close> read from a target.
\<close>

record target =
  t_type :: "ustr option"
  t_index :: "int option"
  t_paragraph_index :: "int option"
  t_page_number :: "int option"
  t_start_line :: "int option"
  t_end_line :: "int option"
  t_text :: "ustr option"
  t_level :: "int option"
  t_alignment :: "ustr option"
  t_font :: "font option"
  t_formatting :: "formatting option"
  t_caption :: "ustr option"
  t_caption_position :: "ustr option"
  t_page_settings :: "page_settings option"
  t_headings :: "ustr option list option"

definition empty_target :: target where
  "empty_target = \<lparr> t_type = None, t_index = None, t_paragraph_index = None,
     t_page_number = None, t_start_line = None, t_end_line = None, t_text = None,
     t_level = None, t_alignment = None, t_font = None, t_formatting = None,
     t_caption = None, t_caption_position = None, t_page_settings = None,
     t_headings = None \<rparr>"

record toc_entry =
  te_title :: "ustr option"
  te_level :: "int option"
  te_page_number :: "int option"
  te_paragraph_index :: "int option"

record toc =
  toc_exists :: "bool option"
  toc_entries :: "toc_entry list"

record doc_data =
  d_page_settings :: "page_settings option"
  d_paragraphs :: "target list"
  d_runs :: "target list"
  d_headings :: "target list"
  d_tables :: "target list"
  d_figures :: "target list"
  d_table_of_contents :: "toc option"

section \<open>StructureChecker\<close>

subsection \<open>_normalize_title\<close>

text \<open>
  A match of \<^verbatim>\<open>C+T\<close> at the start of \<open>s\<close>, for a character class \<open>C\<close> and a
  terminator class \<open>T\<close> that share no character: the longest run of \<open>C\<close> must be
  non-empty and followed by a character of \<open>T\<close>. The result is what follows the match.
\<close>

definition match_run_then :: "(nat \<Rightarrow> bool) \<Rightarrow> (nat \<Rightarrow> bool) \<Rightarrow> ustr \<Rightarrow> ustr option" where
  "match_run_then cls term s =
     (case dropWhile cls s of
        [] \<Rightarrow> None
      | c # rest \<Rightarrow> if takeWhile cls s \<noteq> [] \<and> term c then Some rest else None)"

definition cjk_numeral :: "nat \<Rightarrow> bool" where
  "cjk_numeral c =
     (c \<in> {19968, 20108, 19977, 22235, 20116, 20845, 19971, 20843, 20061, 21313})"

text \<open>
  \<^verbatim>\<open>re.sub(r'^C+[T]', '', s)\<close>, where \<^verbatim>\<open>T\<close> is the ideographic comma U+3001 or the full
  stop: drop an enumerator such as \<^verbatim>\<open>1.\<close> at the start.
\<close>

definition sub_numbered :: "(nat \<Rightarrow> bool) \<Rightarrow> ustr \<Rightarrow> ustr" where
  "sub_numbered cls s =
     (case match_run_then cls (\<lambda>c. c \<in> {12289, 46}) s of None \<Rightarrow> s | Some rest \<Rightarrow> rest)"

text \<open>
  \<^verbatim>\<open>re.sub(r'^[O]\s*C+[P]', '', s)\<close>, where \<^verbatim>\<open>O\<close> and \<^verbatim>\<open>P\<close> are the opening and closing
  parenthesis, ASCII or full-width (U+FF08, U+FF09): drop a parenthesised enumerator.
\<close>

definition sub_parenthesised :: "(nat \<Rightarrow> bool) \<Rightarrow> ustr \<Rightarrow> ustr" where
  "sub_parenthesised cls s =
     (case s of
        [] \<Rightarrow> s
      | c # cs \<Rightarrow>
          if c \<in> {65288, 40} then
            (case match_run_then cls (\<lambda>c. c \<in> {65289, 41}) (dropWhile py_isspace cs) of
               None \<Rightarrow> s
             | Some rest \<Rightarrow> rest)
          else s)"

definition normalize_title :: "ustr \<Rightarrow> ustr" where
  "normalize_title title =
     (let normalized = strip title;
          normalized = sub_numbered cjk_numeral normalized;
          normalized = sub_numbered re_digit normalized;
          normalized = sub_parenthesised cjk_numeral normalized;
          normalized = sub_parenthesised re_digit normalized;
          normalized = filter (\<lambda>c. \<not> (py_isspace c \<or> c = 12288)) normalized;
          normalized = filter (\<lambda>c. c \<notin> {65292, 12290, 12289, 65307, 65306, 65281, 65311}) normalized
      in normalized)"

subsection \<open>Issues of the structure checks\<close>

definition structure_issue :: "ustr \<Rightarrow> ustr \<Rightarrow> ustr \<Rightarrow> ustr \<Rightarrow> location \<Rightarrow> issue" where
  "structure_issue rid name msg sug loc =
     \<lparr> rule_id = Val (RStr rid), rule_name = Val name, category = Val (asc ''structure''),
       error_message = Val msg, suggestion = Val sug, fix_action = None, fix_params = None,
       location = Val loc, locations_list = None, raw_locations = None \<rparr>"

subsection \<open>_get_heading_page\<close>

definition get_heading_page :: "target list \<Rightarrow> int option \<Rightarrow> py_error + int" where
  "get_heading_page paragraphs paragraph_index =
     (case paragraph_index of
        None \<Rightarrow> Inr 1
      | Some i \<Rightarrow>
          if i < int (length paragraphs)
          then bind_err (py_index paragraphs i) (\<lambda>para. Inr (get_or (t_page_number para) 1))
          else Inr 1)"

subsection \<open>check_required_sections\<close>

definition find_section :: "ustr \<Rightarrow> ustr list \<Rightarrow> bool" where
  "find_section section_name found_sections =
     (let normalized_target = normalize_title section_name
      in list_ex (\<lambda>found.
           let normalized_found = normalize_title found
           in normalized_target = normalized_found
              \<or> contains_str normalized_found normalized_target
              \<or> contains_str normalized_target normalized_found) found_sections)"

definition missing_section_issue :: "ustr \<Rightarrow> issue" where
  "missing_section_issue section =
     structure_issue (asc ''REQUIRED_SECTION_MISSING'')
       ([32570, 23569, 24517, 35201, 31456, 33410, 65306] @ section)
       ([25991, 26723, 20013, 26410, 25214, 21040, 24517, 35201, 31456, 33410, 65306] @ section)
       ([35831, 22312, 25991, 26723, 20013, 28155, 21152, 31456, 33410, 65306] @ section)
       (empty_location \<lparr> l_type := Some (asc ''document''),
                        l_description := Some [25991, 26723, 32467, 26500],
                        l_page_number := Some 1 \<rparr>)"

definition check_required_sections :: "doc_data \<Rightarrow> ustr list \<Rightarrow> issue list" where
  "check_required_sections doc required =
     (let found_sections =
            filter (\<lambda>text. text \<noteq> [])
              (map (\<lambda>heading. strip (get_or (t_text heading) [])) (d_headings doc))
      in map missing_section_issue
           (filter (\<lambda>section. \<not> find_section section found_sections) required))"

subsection \<open>check_heading_hierarchy\<close>

definition heading_level :: "target \<Rightarrow> int" where
  "heading_level heading = get_or (t_level heading) 1"

definition jump_message :: "int \<Rightarrow> int \<Rightarrow> ustr" where
  "jump_message prev_level curr_level =
     [26631, 39064, 23618, 32423, 20174] @ str_int prev_level
     @ [32423, 36339, 36716, 21040] @ str_int curr_level
     @ [32423, 65292, 20013, 38388, 32570, 23569] @ str_int (prev_level + 1)
     @ [32423, 26631, 39064]"

definition jump_issue :: "target \<Rightarrow> target \<Rightarrow> int \<Rightarrow> issue" where
  "jump_issue prev_heading curr_heading page =
     (let prev_level = heading_level prev_heading; curr_level = heading_level curr_heading
      in structure_issue (asc ''HEADING_LEVEL_JUMP'')
           [26631, 39064, 23618, 32423, 36339, 36291]
           (jump_message prev_level curr_level)
           ([35831, 22312, 34] @ str_opt (t_text prev_heading) @ [34, 21644, 34] @ str_opt (t_text curr_heading)
            @ [34, 20043, 38388, 28155, 21152] @ str_int (prev_level + 1) @ [32423, 26631, 39064])
           (empty_location \<lparr> l_type := Some (asc ''heading''),
                            l_text := t_text curr_heading,
                            l_paragraph_index := t_paragraph_index curr_heading,
                            l_page_number := Some page \<rparr>))"

text \<open>The loop \<^verbatim>\<open>for i in range(1, len(headings))\<close>, over the list of indices still to visit.\<close>

fun hierarchy_loop :: "target list \<Rightarrow> target list \<Rightarrow> nat list \<Rightarrow> issue list \<Rightarrow> py_error + issue list" where
  "hierarchy_loop paragraphs headings [] issues = Inr issues"
| "hierarchy_loop paragraphs headings (i # rest) issues =
     (let prev_level = heading_level (headings ! (i - 1));
          curr_level = heading_level (headings ! i)
      in if curr_level = 1 then hierarchy_loop paragraphs headings rest issues
         else if curr_level > prev_level + 1 then
           bind_err (get_heading_page paragraphs (t_paragraph_index (headings ! i))) (\<lambda>page.
             hierarchy_loop paragraphs headings rest
               (issues @ [jump_issue (headings ! (i - 1)) (headings ! i) page]))
         else hierarchy_loop paragraphs headings rest issues)"

definition check_heading_hierarchy :: "doc_data \<Rightarrow> py_error + issue list" where
  "check_heading_hierarchy doc =
     (let headings = d_headings doc
      in if length headings < 2 then Inr []
         else hierarchy_loop (d_paragraphs doc) headings [1..<length headings] [])"

subsection \<open>check_toc_body_consistency\<close>

text \<open>The values of the dictionaries \<^verbatim>\<open>toc_titles\<close> and \<^verbatim>\<open>body_titles\<close>.\<close>

record toc_data =
  td_original :: ustr
  td_level :: int
  td_page_number :: "int option"
  td_entry :: toc_entry

record body_data =
  bd_original :: ustr
  bd_level :: int
  bd_paragraph_index :: "int option"
  bd_heading :: target

definition toc_titles_of :: "toc_entry list \<Rightarrow> (ustr \<times> toc_data) list" where
  "toc_titles_of entries =
     foldl (\<lambda>toc_titles entry.
              let title = strip (get_or (te_title entry) [])
              in if title \<noteq> [] then
                   dict_set (normalize_title title)
                     \<lparr> td_original = title, td_level = get_or (te_level entry) 1,
                       td_page_number = te_page_number entry, td_entry = entry \<rparr> toc_titles
                 else toc_titles)
       [] entries"

definition body_titles_of :: "target list \<Rightarrow> (ustr \<times> body_data) list" where
  "body_titles_of body_headings =
     foldl (\<lambda>body_titles heading.
              let text = strip (get_or (t_text heading) [])
              in if text \<noteq> [] then
                   dict_set (normalize_title text)
                     \<lparr> bd_original = text, bd_level = get_or (t_level heading) 1,
                       bd_paragraph_index = t_paragraph_index heading, bd_heading = heading \<rparr>
                     body_titles
                 else body_titles)
       [] body_headings"

definition toc_missing_issue :: issue where
  "toc_missing_issue =
     structure_issue (asc ''TOC_MISSING'')
       [32570, 23569, 30446, 24405]
       [25991, 26723, 20013, 26410, 25214, 21040, 30446, 24405]
       [35831, 28155, 21152, 30446, 24405]
       (empty_location \<lparr> l_type := Some (asc ''document''),
                        l_description := Some [25991, 26723, 21069, 37096],
                        l_page_number := Some 1 \<rparr>)"

definition toc_empty_issue :: issue where
  "toc_empty_issue =
     structure_issue (asc ''TOC_EMPTY'')
       [30446, 24405, 20026, 31354]
       [30446, 24405, 20013, 27809, 26377, 26465, 30446]
       [35831, 30830, 20445, 30446, 24405, 21253, 21547, 25152, 26377, 20027, 35201, 31456, 33410]
       (empty_location \<lparr> l_type := Some (asc ''toc''),
                        l_description := Some [30446, 24405],
                        l_page_number := Some 1 \<rparr>)"

definition toc_entry_not_found_issue :: "ustr \<Rightarrow> issue" where
  "toc_entry_not_found_issue original =
     structure_issue (asc ''TOC_ENTRY_NOT_FOUND'')
       [30446, 24405, 26465, 30446, 22312, 27491, 25991, 20013, 19981, 23384, 22312]
       ([30446, 24405, 20013, 30340, 34] @ original
        @ [34, 22312, 27491, 25991, 20013, 26410, 25214, 21040, 23545, 24212, 26631, 39064])
       ([35831, 26816, 26597, 30446, 24405, 65292, 30830, 20445, 34] @ original
        @ [34, 22312, 27491, 25991, 20013, 23384, 22312, 23545, 24212, 30340, 26631, 39064])
       (empty_location \<lparr> l_type := Some (asc ''toc''),
                        l_description := Some ([30446, 24405, 26465, 30446, 65306] @ original),
                        l_page_number := Some 1 \<rparr>)"

definition toc_level_mismatch_issue :: "ustr \<Rightarrow> int \<Rightarrow> int \<Rightarrow> int option \<Rightarrow> int \<Rightarrow> issue" where
  "toc_level_mismatch_issue original toc_level body_level paragraph_index page =
     structure_issue (asc ''TOC_LEVEL_MISMATCH'')
       [30446, 24405, 23618, 32423, 19982, 27491, 25991, 19981, 19968, 33268]
       ([30446, 24405, 20013, 30340, 34] @ original @ [34, 23618, 32423, 40] @ str_int toc_level
        @ [32423, 41, 19982, 27491, 25991, 20013, 30340, 23618, 32423, 40] @ str_int body_level
        @ [32423, 41, 19981, 19968, 33268])
       ([35831, 26816, 26597, 30446, 24405, 21644, 27491, 25991, 20013, 34] @ original
        @ [34, 30340, 23618, 32423, 35774, 32622, 65292, 30830, 20445, 19968, 33268])
       (empty_location \<lparr> l_type := Some (asc ''heading''),
                        l_text := Some original,
                        l_paragraph_index := paragraph_index,
                        l_page_number := Some page \<rparr>)"

definition heading_not_in_toc_issue :: "ustr \<Rightarrow> int option \<Rightarrow> int \<Rightarrow> issue" where
  "heading_not_in_toc_issue title paragraph_index page =
     structure_issue (asc ''HEADING_NOT_IN_TOC'')
       [27491, 25991, 26631, 39064, 26410, 20986, 29616, 22312, 30446, 24405, 20013]
       ([27491, 25991, 20013, 30340, 19968, 32423, 26631, 39064, 34] @ title
        @ [34, 26410, 20986, 29616, 22312, 30446, 24405, 20013])
       ([35831, 22312, 30446, 24405, 20013, 28155, 21152, 34] @ title @ [34])
       (empty_location \<lparr> l_type := Some (asc ''heading''),
                        l_text := Some title,
                        l_paragraph_index := paragraph_index,
                        l_page_number := Some page \<rparr>)"

text \<open>
  The body heading that a TOC title resolves to: the heading with the same normalised
  title, else the first heading (in dictionary order) one of whose normalised titles
  contains the other.
\<close>

definition matching_body_of :: "(ustr \<times> body_data) list \<Rightarrow> ustr \<Rightarrow> body_data option" where
  "matching_body_of body_titles normalized_toc =
     (case find (\<lambda>e. normalized_toc = fst e) body_titles of
        Some e \<Rightarrow> Some (snd e)
      | None \<Rightarrow>
          (case find (\<lambda>e. contains_str (fst e) normalized_toc
                          \<or> contains_str normalized_toc (fst e)) body_titles of
             Some e \<Rightarrow> Some (snd e)
           | None \<Rightarrow> None))"

text \<open>Check 1: every TOC entry resolves to a body heading of the same level.\<close>

fun check_toc_entries ::
  "target list \<Rightarrow> (ustr \<times> body_data) list \<Rightarrow> (ustr \<times> toc_data) list \<Rightarrow> issue list
   \<Rightarrow> py_error + issue list" where
  "check_toc_entries paragraphs body_titles [] issues = Inr issues"
| "check_toc_entries paragraphs body_titles (e # rest) issues =
     (let normalized_toc = fst e; toc_data = snd e
      in case matching_body_of body_titles normalized_toc of
           None \<Rightarrow>
             check_toc_entries paragraphs body_titles rest
               (issues @ [toc_entry_not_found_issue (td_original toc_data)])
         | Some matching_body \<Rightarrow>
             (let toc_level = td_level toc_data; body_level = bd_level matching_body
              in if toc_level \<noteq> body_level then
                   bind_err (get_heading_page paragraphs (bd_paragraph_index matching_body))
                     (\<lambda>page.
                        check_toc_entries paragraphs body_titles rest
                          (issues @ [toc_level_mismatch_issue (td_original toc_data) toc_level
                                       body_level (bd_paragraph_index matching_body) page]))
                 else check_toc_entries paragraphs body_titles rest issues))"

text \<open>Check 2: every level-1 body heading resolves back into the TOC.\<close>

fun check_level_1_headings ::
  "target list \<Rightarrow> ustr list \<Rightarrow> target list \<Rightarrow> issue list \<Rightarrow> py_error + issue list" where
  "check_level_1_headings paragraphs toc_keys [] issues = Inr issues"
| "check_level_1_headings paragraphs toc_keys (heading # rest) issues =
     (let title = strip (get_or (t_text heading) [])
      in if title = [] then check_level_1_headings paragraphs toc_keys rest issues
         else
           (let normalized_title = normalize_title title;
                found_in_toc =
                  list_ex (\<lambda>normalized_toc.
                             normalized_title = normalized_toc
                             \<or> contains_str normalized_toc normalized_title
                             \<or> contains_str normalized_title normalized_toc) toc_keys
            in if \<not> found_in_toc then
                 bind_err (get_heading_page paragraphs (t_paragraph_index heading)) (\<lambda>page.
                   check_level_1_headings paragraphs toc_keys rest
                     (issues @ [heading_not_in_toc_issue title (t_paragraph_index heading) page]))
               else check_level_1_headings paragraphs toc_keys rest issues))"

definition check_toc_body_consistency :: "doc_data \<Rightarrow> py_error + issue list" where
  "check_toc_body_consistency doc =
     (let toc_exists_flag =
            (case d_table_of_contents doc of None \<Rightarrow> None | Some toc \<Rightarrow> toc_exists toc)
      in if toc_exists_flag \<noteq> Some True then Inr [toc_missing_issue]
         else
           (let entries =
                  (case d_table_of_contents doc of None \<Rightarrow> [] | Some toc \<Rightarrow> toc_entries toc);
                body_headings = d_headings doc
            in if entries = [] then Inr [toc_empty_issue]
               else
                 (let toc_titles = toc_titles_of entries;
                      body_titles = body_titles_of body_headings
                  in bind_err (check_toc_entries (d_paragraphs doc) body_titles toc_titles [])
                       (\<lambda>issues.
                          check_level_1_headings (d_paragraphs doc) (map fst toc_titles)
                            (filter (\<lambda>h. t_level h = Some 1) body_headings) issues))))"


section \<open>RuleEngine: rules and condition evaluators\<close>

text \<open>
  A rule condition is a dictionary whose keys depend on the category of the rule. The
  record has every key that an evaluator reads; \<open>c_levels\<close> holds the entries
  \<^verbatim>\<open>"level1"\<close>, \<^verbatim>\<open>"level2"\<close>, ... of a heading condition, by key. A key that is
  present holds a value of the type the evaluator expects: the numbers are Python ints
  or floats.
\<close>

record condition =
  c_tolerance_mm :: "pynum option"
  c_top_mm :: "pynum option"
  c_bottom_mm :: "pynum option"
  c_left_mm :: "pynum option"
  c_right_mm :: "pynum option"
  c_paper_name :: "ustr option"
  c_width_mm :: "pynum option"
  c_height_mm :: "pynum option"
  c_chinese_font :: "ustr option"
  c_english_font :: "ustr option"
  c_chinese_size_pt :: "pynum option"
  c_english_size_pt :: "pynum option"
  c_first_line_indent_chars :: "pynum option"
  c_paragraph_line_spacing :: "pynum option"
  c_number_style :: "ustr option"
  c_levels :: "(ustr \<times> level_condition) list"
  c_caption_position :: "ustr option"
  c_caption_prefix :: "ustr option"
  c_required :: "ustr list option"
  c_citation_style :: "ustr option"
  c_required_sections :: "ustr list option"

definition empty_condition :: condition where
  "empty_condition = \<lparr> c_tolerance_mm = None, c_top_mm = None, c_bottom_mm = None,
     c_left_mm = None, c_right_mm = None, c_paper_name = None, c_width_mm = None,
     c_height_mm = None, c_chinese_font = None, c_english_font = None,
     c_chinese_size_pt = None, c_english_size_pt = None, c_first_line_indent_chars = None,
     c_paragraph_line_spacing = None, c_number_style = None, c_levels = [],
     c_caption_position = None, c_caption_prefix = None, c_required = None,
     c_citation_style = None, c_required_sections = None \<rparr>"

record rule =
  r_id :: "rid option"
  r_name :: "ustr option"
  r_category :: "ustr option"
  r_match :: "ustr option"
  r_condition :: "condition option"
  r_error_message :: "ustr option"
  r_suggestion :: "ustr option"
  r_fix_action :: "ustr option"
  r_fix_params :: "fix_params option"
  r_checker :: "ustr option"

subsection \<open>_match_page_condition\<close>

text \<open>\<^verbatim>\<open>target.get("page_settings", {}).get("margins", {}).get(key, 0)\<close>.\<close>

definition actual_margin :: "target \<Rightarrow> (margins \<Rightarrow> pynum option) \<Rightarrow> pynum" where
  "actual_margin target side =
     (case t_page_settings target of
        None \<Rightarrow> PInt 0
      | Some page_settings \<Rightarrow>
          (case p_margins page_settings of None \<Rightarrow> PInt 0 | Some m \<Rightarrow> get_or (side m) (PInt 0)))"

definition actual_paper :: "target \<Rightarrow> (paper_size \<Rightarrow> pynum option) \<Rightarrow> pynum" where
  "actual_paper target which =
     (case t_page_settings target of
        None \<Rightarrow> PInt 0
      | Some page_settings \<Rightarrow>
          (case p_paper_size page_settings of
             None \<Rightarrow> PInt 0
           | Some p \<Rightarrow> get_or (which p) (PInt 0)))"

text \<open>The test \<^verbatim>\<open>abs(actual - expected) > tolerance\<close>, shared by the evaluators.\<close>

definition exceeds :: "pynum \<Rightarrow> pynum \<Rightarrow> pynum \<Rightarrow> py_error + bool" where
  "exceeds actual expected tolerance =
     bind_err (py_sub actual expected) (\<lambda>d. Inr (py_gt (py_abs d) tolerance))"

text \<open>
  One round of the loop over the four sides: \<^verbatim>\<open>if key in condition\<close> and the side is
  off by more than the tolerance.
\<close>

definition side_fails :: "pynum \<Rightarrow> pynum option \<Rightarrow> pynum \<Rightarrow> py_error + bool" where
  "side_fails tolerance expected actual =
     (case expected of None \<Rightarrow> Inr False | Some e \<Rightarrow> exceeds actual e tolerance)"

text \<open>
  The loop \<^verbatim>\<open>for key in ["top_mm", "bottom_mm", "left_mm", "right_mm"]\<close> over the pairs
  of the expected and the actual margin of each side. \<open>Inr False\<close> is the
  \<^verbatim>\<open>return False\<close> inside the loop, \<open>Inr True\<close> its normal end.
\<close>

fun check_sides :: "pynum \<Rightarrow> (pynum option \<times> pynum) list \<Rightarrow> py_error + bool" where
  "check_sides tolerance [] = Inr True"
| "check_sides tolerance ((expected, actual) # rest) =
     bind_err (side_fails tolerance expected actual) (\<lambda>fails.
       if fails then Inr False else check_sides tolerance rest)"

text \<open>The default tolerance \<^verbatim>\<open>0.5\<close> is a double.\<close>

definition match_page_condition :: "target \<Rightarrow> condition \<Rightarrow> py_error + bool" where
  "match_page_condition target condition =
     (let tolerance = get_or (c_tolerance_mm condition) (PFloat (Fin (1 / 2)))
      in bind_err
           (check_sides tolerance
              [(c_top_mm condition, actual_margin target m_top_mm),
               (c_bottom_mm condition, actual_margin target m_bottom_mm),
               (c_left_mm condition, actual_margin target m_left_mm),
               (c_right_mm condition, actual_margin target m_right_mm)])
           (\<lambda>sides_ok.
              if \<not> sides_ok then Inr False
              else
                (case c_paper_name condition of
                   None \<Rightarrow> Inr True
                 | Some paper_name \<Rightarrow>
                     (let width = actual_paper target ps_width_mm;
                          height = actual_paper target ps_height_mm
                      in if paper_name = asc ''A4'' then
                           bind_err (py_sub width (PInt 210)) (\<lambda>dw.
                             if \<not> py_lt (py_abs dw) (PInt 1) then Inr False
                             else bind_err (py_sub height (PInt 297)) (\<lambda>dh.
                                    Inr (py_lt (py_abs dh) (PInt 1))))
                         else
                           (case (c_width_mm condition, c_height_mm condition) of
                              (Some w, Some h) \<Rightarrow>
                                bind_err (exceeds width w (PInt 1)) (\<lambda>wide.
                                  if wide then Inr False
                                  else bind_err (exceeds height h (PInt 1)) (\<lambda>high.
                                         Inr (\<not> high)))
                            | _ \<Rightarrow> Inr True)))))"

subsection \<open>_match_font_condition\<close>

text \<open>\<^verbatim>\<open>re.search(r'[\u4e00-\u9fff]', text)\<close> and \<^verbatim>\<open>re.search(r'[a-zA-Z]', text)\<close>.\<close>

definition contains_chinese :: "ustr \<Rightarrow> bool" where
  "contains_chinese text = list_ex (\<lambda>c. 19968 \<le> c \<and> c \<le> 40959) text"

definition contains_english :: "ustr \<Rightarrow> bool" where
  "contains_english text = list_ex (\<lambda>c. (97 \<le> c \<and> c \<le> 122) \<or> (65 \<le> c \<and> c \<le> 90)) text"

text \<open>The alias table: the Chinese names of five fonts map to their English names.\<close>

definition font_map :: "ustr \<Rightarrow> ustr" where
  "font_map raw_name =
     (if raw_name = [23435, 20307] then asc ''SimSun''
      else if raw_name = [40657, 20307] then asc ''SimHei''
      else if raw_name = [24494, 36719, 38597, 40657] then asc ''Microsoft YaHei''
      else if raw_name = [26999, 20307] then asc ''KaiTi''
      else if raw_name = [20223, 23435] then asc ''FangSong''
      else raw_name)"

definition normalize_font_name :: "ustr \<Rightarrow> ustr option" where
  "normalize_font_name name =
     (if name = [] then None
      else Some (font_map (strip (takeWhile (\<lambda>c. c \<noteq> 44) name))))"

definition empty_font :: font where
  "empty_font = \<lparr> f_name = None, f_size_pt = None, f_bold = None \<rparr>"

definition match_font_condition :: "target \<Rightarrow> condition \<Rightarrow> py_error + bool" where
  "match_font_condition target condition =
     (let font = get_or (t_font target) empty_font;
          text = get_or (t_text target) []
      in case (f_name font, f_size_pt font) of
           (Some name, Some actual_size) \<Rightarrow>
             (if c_chinese_font condition \<noteq> None \<and> contains_chinese text
                 \<and> normalize_font_name name
                     \<noteq> normalize_font_name (get_or (c_chinese_font condition) [])
              then Inr False
              else if c_english_font condition \<noteq> None \<and> contains_english text
                 \<and> normalize_font_name name
                     \<noteq> normalize_font_name (get_or (c_english_font condition) [])
              then Inr False
              else
                bind_err (if contains_chinese text
                          then side_fails (PFloat (Fin (1 / 2))) (c_chinese_size_pt condition)
                                 actual_size
                          else Inr False) (\<lambda>chinese_off.
                  if chinese_off then Inr False
                  else
                    bind_err (if contains_english text
                              then side_fails (PFloat (Fin (1 / 2)))
                                     (c_english_size_pt condition) actual_size
                              else Inr False) (\<lambda>english_off. Inr (\<not> english_off))))
         | _ \<Rightarrow> Inr True)"

subsection \<open>_match_paragraph_condition\<close>

definition empty_formatting :: formatting where
  "empty_formatting = \<lparr> fm_first_line_indent_chars = None, fm_line_spacing_pt = None,
     fm_line_spacing = None \<rparr>"

text \<open>
  The line spacing in points: \<^verbatim>\<open>line_spacing_pt\<close> when the parser resolved it, else
  \<^verbatim>\<open>line_spacing\<close> itself when it is above 10, else the multiple times the font size
  of the paragraph (12 when unknown or zero).
\<close>

definition actual_spacing_pt :: "target \<Rightarrow> py_error + pynum" where
  "actual_spacing_pt target =
     (let formatting = get_or (t_formatting target) empty_formatting
      in case fm_line_spacing_pt formatting of
           Some pt \<Rightarrow> Inr pt
         | None \<Rightarrow>
             (let line_spacing = get_or (fm_line_spacing formatting) (PInt 0)
              in if py_gt line_spacing (PInt 10) then Inr line_spacing
                 else
                   (let font_size =
                          (case t_font target of
                             None \<Rightarrow> PInt 12
                           | Some f \<Rightarrow>
                               (case f_size_pt f of
                                  None \<Rightarrow> PInt 12
                                | Some sz \<Rightarrow> if py_truth sz then sz else PInt 12))
                    in if py_truth line_spacing then py_mul line_spacing font_size
                       else Inr (PInt 0))))"

definition match_paragraph_condition :: "target \<Rightarrow> condition \<Rightarrow> py_error + bool" where
  "match_paragraph_condition target condition =
     (let formatting = get_or (t_formatting target) empty_formatting
      in bind_err
           (side_fails (PFloat (Fin (1 / 2))) (c_first_line_indent_chars condition)
              (get_or (fm_first_line_indent_chars formatting) (PInt 0)))
           (\<lambda>indent_off.
              if indent_off then Inr False
              else
                (case c_paragraph_line_spacing condition of
                   None \<Rightarrow> Inr True
                 | Some expected_spacing \<Rightarrow>
                     bind_err (actual_spacing_pt target) (\<lambda>spacing.
                       if py_truth spacing
                       then bind_err (exceeds spacing expected_spacing (PInt 2))
                              (\<lambda>spacing_off. Inr (\<not> spacing_off))
                       else Inr True))))"

subsection \<open>_match_heading_condition\<close>

text \<open>
  For a section rule only the numbering is checked: \<^verbatim>\<open>re.match(r'^\d+(\.\d+)*', s)\<close>
  succeeds exactly when \<open>s\<close> starts with a decimal digit. A section dictionary is built by
  \<^verbatim>\<open>_extract_sections\<close>, which always writes the key \<^verbatim>\<open>"text"\<close>; when the heading had no
  text the value is \<^verbatim>\<open>None\<close> and \<^verbatim>\<open>text.strip()\<close> raises.
\<close>

definition starts_with_number :: "ustr \<Rightarrow> bool" where
  "starts_with_number s = (case s of [] \<Rightarrow> False | c # cs \<Rightarrow> re_digit c)"

definition level_key :: "int option \<Rightarrow> ustr" where
  "level_key level = asc ''level'' @ (case level of None \<Rightarrow> asc ''None'' | Some l \<Rightarrow> str_int l)"

definition match_level_condition :: "target \<Rightarrow> level_condition \<Rightarrow> py_error + bool" where
  "match_level_condition target level_condition =
     (let font = get_or (t_font target) empty_font
      in case (f_name font, f_size_pt font) of
           (Some name, Some actual_size) \<Rightarrow>
             (if lc_font level_condition \<noteq> None \<and> Some name \<noteq> lc_font level_condition
              then Inr False
              else
                bind_err (side_fails (PFloat (Fin (1 / 2))) (lc_size_pt level_condition)
                            actual_size) (\<lambda>size_off.
                  if size_off then Inr False
                  else if lc_bold level_condition \<noteq> None
                     \<and> f_bold font \<noteq> lc_bold level_condition
                  then Inr False
                  else if lc_alignment level_condition \<noteq> None
                     \<and> t_alignment target \<noteq> lc_alignment level_condition
                  then Inr False
                  else Inr True))
         | _ \<Rightarrow> Inr True)"

definition match_heading_condition :: "target \<Rightarrow> condition \<Rightarrow> ustr \<Rightarrow> py_error + bool" where
  "match_heading_condition target condition match_type =
     (if match_type = asc ''section'' then
        (if c_number_style condition \<noteq> None then
           (case t_text target of
              Some text \<Rightarrow> Inr (starts_with_number (strip text))
            | None \<Rightarrow>
                if t_type target = Some (asc ''section'') then Inl AttributeError
                else Inr (starts_with_number (strip [])))
         else Inr True)
      else
        (case map_of (c_levels condition) (level_key (t_level target)) of
           None \<Rightarrow> Inr True
         | Some level_condition \<Rightarrow> match_level_condition target level_condition))"

subsection \<open>The other evaluators\<close>

definition match_figure_condition :: "target \<Rightarrow> condition \<Rightarrow> bool" where
  "match_figure_condition target condition =
     (if c_caption_position condition \<noteq> None
         \<and> t_caption_position target \<noteq> c_caption_position condition
      then False
      else
        (case c_caption_prefix condition of
           None \<Rightarrow> True
         | Some prefix \<Rightarrow> startswith (get_or (t_caption target) []) prefix))"

text \<open>
  \<^verbatim>\<open>_match_other_condition\<close> lower-cases the heading texts with \<^verbatim>\<open>str.lower()\<close>. The
  case mapping of the Unicode database belongs to the Python runtime, not to the
  repository; it is the parameter \<open>str_lower\<close>.
\<close>

definition match_other_condition :: "(ustr \<Rightarrow> ustr) \<Rightarrow> target \<Rightarrow> condition \<Rightarrow> bool" where
  "match_other_condition str_lower target condition =
     (case c_required condition of
        None \<Rightarrow> True
      | Some required \<Rightarrow>
          (let heading_texts =
                 map (\<lambda>h. str_lower (get_or h [])) (get_or (t_headings target) [])
           in list_all (\<lambda>req. \<not> (req \<notin> set heading_texts \<and> req \<noteq> asc ''body'')) required))"

text \<open>
  \<^verbatim>\<open>_match_generic_condition\<close> compares \<^verbatim>\<open>target.get(key)\<close> with the expected value for
  every key of the condition. Of the keys of a condition only \<^verbatim>\<open>caption_position\<close> is
  also a key of a target; for any other key that is present \<^verbatim>\<open>target.get(key)\<close> is
  \<^verbatim>\<open>None\<close>, which differs from the expected value.
\<close>

definition match_generic_condition :: "target \<Rightarrow> condition \<Rightarrow> bool" where
  "match_generic_condition target condition =
     (condition \<lparr> c_caption_position := None \<rparr> = empty_condition
      \<and> (c_caption_position condition = None
         \<or> t_caption_position target = c_caption_position condition))"

subsection \<open>_match_condition\<close>

definition match_condition ::
  "(ustr \<Rightarrow> ustr) \<Rightarrow> target \<Rightarrow> condition \<Rightarrow> ustr option \<Rightarrow> ustr \<Rightarrow> py_error + bool" where
  "match_condition str_lower target condition cat match_type =
     (if cat = Some (asc ''page'') then match_page_condition target condition
      else if cat = Some (asc ''font'') then match_font_condition target condition
      else if cat = Some (asc ''paragraph'')
        then match_paragraph_condition target condition
      else if cat = Some (asc ''heading'')
        then match_heading_condition target condition match_type
      else if cat = Some (asc ''figure'') then Inr (match_figure_condition target condition)
      else if cat = Some (asc ''other'')
        then Inr (match_other_condition str_lower target condition)
      else Inr (match_generic_condition target condition))"


section \<open>Verification: merging is lossless\<close>

definition issue_complete :: "issue \<Rightarrow> bool" where
  "issue_complete i = (rule_id i \<noteq> Absent \<and> rule_name i \<noteq> Absent \<and> category i \<noteq> Absent
     \<and> error_message i \<noteq> Absent \<and> suggestion i \<noteq> Absent
     \<and> location i \<noteq> Absent \<and> location i \<noteq> Null)"

definition group_locs :: "(rid option \<times> group_data) list \<Rightarrow> location option list" where
  "group_locs grouped = concat (map (\<lambda>e. g_locations (snd e)) grouped)"

lemma bind_err_Inr: "bind_err r f = Inr y \<longleftrightarrow> (\<exists>x. r = Inr x \<and> f x = Inr y)"
  by (cases r) (simp_all add: bind_err_def)

lemma subscript_Inr: "subscript e = Inr v \<longleftrightarrow> e = store v"
  by (cases e; cases v) (simp_all add: subscript_def store_def)

lemma subscript_present: "e \<noteq> Absent \<Longrightarrow> \<exists>v. subscript e = Inr v"
  by (cases e) (simp_all add: subscript_def)

lemma store_the: "None \<notin> set xs \<Longrightarrow> map Val (map the xs) = map store xs"
proof (induction xs)
  case Nil
  then show ?case by simp
next
  case (Cons a xs)
  then obtain y where "a = Some y" by (cases a) auto
  with Cons show ?case by (simp add: store_def)
qed

lemma group_append_keys: "map fst (group_append r loc grouped) = map fst grouped"
  by (induction grouped) auto

lemma group_append_locs:
  "r \<in> fst ` set grouped \<Longrightarrow>
   mset (group_locs (group_append r loc grouped)) = add_mset loc (mset (group_locs grouped))"
  by (induction grouped) (force simp: group_locs_def)+

lemma new_group_locs: "new_group i = Inr g \<Longrightarrow> g_locations g = []"
  by (auto simp: new_group_def bind_err_Inr)

lemma group_step_locs:
  assumes "group_step grouped i = Inr grouped'"
  shows "\<exists>loc. location i = store loc \<and>
           mset (group_locs grouped') = add_mset loc (mset (group_locs grouped))"
proof -
  from assms obtain r g1 loc where r: "rule_id i = store r"
    and g1: "(if r \<in> fst ` set grouped then Inr grouped
              else bind_err (new_group i) (\<lambda>g. Inr (grouped @ [(r, g)]))) = Inr g1"
    and loc: "location i = store loc" and g': "grouped' = group_append r loc g1"
    by (auto simp: group_step_def bind_err_Inr subscript_Inr)
  have "r \<in> fst ` set g1 \<and> mset (group_locs g1) = mset (group_locs grouped)"
  proof (cases "r \<in> fst ` set grouped")
    case True
    with g1 show ?thesis by simp
  next
    case False
    with g1 obtain g where "new_group i = Inr g" and "g1 = grouped @ [(r, g)]"
      by (auto simp: bind_err_Inr)
    then show ?thesis using new_group_locs [of i g] by (simp add: group_locs_def)
  qed
  with loc g' show ?thesis by (simp add: group_append_locs)
qed

lemma group_issues_locs:
  "group_issues grouped issues = Inr grouped' \<Longrightarrow>
   mset (map store (group_locs grouped')) =
     mset (map store (group_locs grouped)) + mset (map location issues)"
proof (induction issues arbitrary: grouped)
  case Nil
  then show ?case by simp
next
  case (Cons i issues)
  from Cons.prems obtain g1 where s: "group_step grouped i = Inr g1"
    and r: "group_issues g1 issues = Inr grouped'"
    by (auto simp: bind_err_Inr)
  from group_step_locs [OF s] obtain loc where "location i = store loc"
    and "mset (group_locs g1) = add_mset loc (mset (group_locs grouped))" by blast
  moreover have "mset (map store (group_locs g1)) = image_mset store (mset (group_locs g1))"
    by simp
  ultimately show ?case using Cons.IH [OF r] by simp
qed

lemma build_merged_raw:
  "build_merged ds = Inr merged \<Longrightarrow>
   None \<notin> set (concat (map g_locations ds))
   \<and> map raw_locations merged = map (\<lambda>d. Some (map the (g_locations d))) ds"
proof (induction ds arbitrary: merged)
  case Nil
  then show ?case by simp
next
  case (Cons d ds)
  from Cons.prems obtain m ms where m: "merged_issue d = Inr m"
    and ms: "build_merged ds = Inr ms" and me: "merged = m # ms"
    by (auto simp: bind_err_Inr)
  from m have "None \<notin> set (g_locations d) \<and> raw_locations m = Some (map the (g_locations d))"
    by (auto simp: merged_issue_def Let_def split: if_splits)
  with Cons.IH [OF ms] me show ?case by simp
qed

lemma build_merged_total:
  "None \<notin> set (concat (map g_locations ds)) \<Longrightarrow> \<exists>merged. build_merged ds = Inr merged"
  by (induction ds) (auto simp: merged_issue_def Let_def bind_err_def)

lemma group_step_total:
  assumes "issue_complete i"
  shows "\<exists>g. group_step grouped i = Inr g"
proof -
  obtain r where r: "subscript (rule_id i) = Inr r"
    using assms subscript_present [of "rule_id i"] by (auto simp: issue_complete_def)
  obtain n where n: "subscript (rule_name i) = Inr n"
    using assms subscript_present [of "rule_name i"] by (auto simp: issue_complete_def)
  obtain c where c: "subscript (category i) = Inr c"
    using assms subscript_present [of "category i"] by (auto simp: issue_complete_def)
  obtain m where m: "subscript (error_message i) = Inr m"
    using assms subscript_present [of "error_message i"] by (auto simp: issue_complete_def)
  obtain s where s: "subscript (suggestion i) = Inr s"
    using assms subscript_present [of "suggestion i"] by (auto simp: issue_complete_def)
  obtain l where l: "subscript (location i) = Inr l"
    using assms subscript_present [of "location i"] by (auto simp: issue_complete_def)
  from r n c m s l show ?thesis by (simp add: group_step_def new_group_def bind_err_def)
qed

lemma group_issues_total:
  "\<forall>i\<in>set issues. issue_complete i \<Longrightarrow> \<exists>g. group_issues grouped issues = Inr g"
proof (induction issues arbitrary: grouped)
  case Nil
  then show ?case by simp
next
  case (Cons i issues)
  then obtain g1 where "group_step grouped i = Inr g1"
    using group_step_total [of i grouped] by auto
  with Cons show ?case by (simp add: bind_err_def)
qed

lemma merge_total:
  assumes "\<forall>i\<in>set issues. issue_complete i"
  shows "\<exists>merged. merge_issues_by_rule issues = Inr merged"
proof -
  from group_issues_total [OF assms] obtain g where g: "group_issues [] issues = Inr g" by blast
  from group_issues_locs [OF g]
  have e: "mset (map store (group_locs g)) = mset (map location issues)"
    by (simp add: group_locs_def)
  have "set (map store (group_locs g)) = set (map location issues)"
    using arg_cong [OF e, of set_mset] by simp
  moreover from assms have "Null \<notin> set (map location issues)"
    by (auto simp: issue_complete_def)
  ultimately have "None \<notin> set (group_locs g)" by (force simp: store_def)
  then have "None \<notin> set (concat (map g_locations (map snd g)))"
    by (simp add: group_locs_def comp_def)
  from build_merged_total [OF this] g show ?thesis
    by (simp add: merge_issues_by_rule_def bind_err_def)
qed

text \<open>
  C1. Merging is lossless: whenever \<^verbatim>\<open>_merge_issues_by_rule\<close> returns, the
  \<^verbatim>\<open>raw_locations\<close> lists of the merged issues, taken together, hold exactly the
  \<^verbatim>\<open>location\<close> values of the input issues, as a multiset. It returns for every
  list of issues that have the six keys read by subscription and a location that is not
  \<^verbatim>\<open>None\<close>; the other five values may be \<^verbatim>\<open>None\<close>.
\<close>

theorem merge_lossless:
  "(merge_issues_by_rule issues = Inr merged \<longrightarrow>
      (\<exists>locss. map raw_locations merged = map Some locss
         \<and> mset (map Val (concat locss)) = mset (map location issues)))
   \<and> ((\<forall>i\<in>set issues. issue_complete i) \<longrightarrow> (\<exists>m. merge_issues_by_rule issues = Inr m))"
proof (intro conjI impI)
  assume m: "merge_issues_by_rule issues = Inr merged"
  then obtain grouped where g: "group_issues [] issues = Inr grouped"
    and me: "build_merged (map snd grouped) = Inr merged"
    by (auto simp: merge_issues_by_rule_def bind_err_Inr)
  let ?locss = "map (\<lambda>d. map the (g_locations d)) (map snd grouped)"
  from build_merged_raw [OF me]
  have n: "None \<notin> set (group_locs grouped)"
    and raw: "map raw_locations merged = map Some ?locss"
    by (simp_all add: group_locs_def comp_def)
  have c: "concat ?locss = map the (group_locs grouped)"
    by (simp add: group_locs_def map_concat comp_def)
  have "map Val (concat ?locss) = map store (group_locs grouped)"
    unfolding c using n by (rule store_the)
  moreover have "mset (map store (group_locs grouped)) = mset (map location issues)"
    using group_issues_locs [OF g] by (simp add: group_locs_def)
  ultimately have "mset (map Val (concat ?locss)) = mset (map location issues)" by simp
  with raw show "\<exists>locss. map raw_locations merged = map Some locss
         \<and> mset (map Val (concat locss)) = mset (map location issues)" by blast
next
  assume "\<forall>i\<in>set issues. issue_complete i"
  then show "\<exists>m. merge_issues_by_rule issues = Inr m" by (rule merge_total)
qed


definition ex_para_loc :: "int \<Rightarrow> location" where
  "ex_para_loc i = empty_location \<lparr> l_type := Some (asc ''paragraph''), l_index := Some i \<rparr>"

definition ex_issue :: "rid \<Rightarrow> location \<Rightarrow> issue" where
  "ex_issue r loc =
     \<lparr> rule_id = Val r, rule_name = Val (asc ''font check''), category = Val (asc ''font''),
       error_message = Val (asc ''wrong font''), suggestion = Val (asc ''change the font''),
       fix_action = None, fix_params = None, location = Val loc,
       locations_list = None, raw_locations = None \<rparr>"

definition ex_issues :: "issue list" where
  "ex_issues = [ex_issue (RInt 1) (ex_para_loc 0),
                (ex_issue (RInt 2) (ex_para_loc 1)) \<lparr> error_message := Null, suggestion := Null \<rparr>,
                ex_issue (RInt 1) (ex_para_loc 2)]"

lemma ex_issues_complete: "\<forall>i\<in>set ex_issues. issue_complete i"
  by (simp add: ex_issues_def ex_issue_def issue_complete_def)

theorem merge_lossless_witness:
  "list_all issue_complete ex_issues \<and>
   (\<exists>merged locss. merge_issues_by_rule ex_issues = Inr merged
      \<and> map raw_locations merged = map Some locss
      \<and> mset (map Val (concat locss)) = mset (map location ex_issues))"
proof -
  from ex_issues_complete merge_lossless [of ex_issues]
  obtain m where m: "merge_issues_by_rule ex_issues = Inr m" by blast
  with merge_lossless [of ex_issues m] ex_issues_complete
  show ?thesis by (auto simp: list_all_iff)
qed


section \<open>Verification: the merged summary counts the raw locations\<close>

lemma group_append_nonempty:
  "\<forall>e\<in>set grouped. g_locations (snd e) \<noteq> [] \<Longrightarrow>
   \<forall>e\<in>set (group_append r loc grouped). g_locations (snd e) \<noteq> []"
  by (induction grouped) (fastforce split: if_splits)+

lemma group_append_fresh:
  "r \<notin> fst ` set grouped \<Longrightarrow>
   group_append r loc (grouped @ [(r, d)]) = grouped @ [(r, d \<lparr> g_locations := g_locations d @ [loc] \<rparr>)]"
  by (induction grouped) auto

lemma group_step_nonempty:
  assumes "group_step grouped i = Inr grouped'"
    and "\<forall>e\<in>set grouped. g_locations (snd e) \<noteq> []"
  shows "\<forall>e\<in>set grouped'. g_locations (snd e) \<noteq> []"
proof -
  from assms(1) obtain r g1 loc where
        g1: "(if r \<in> fst ` set grouped then Inr grouped
              else bind_err (new_group i) (\<lambda>g. Inr (grouped @ [(r, g)]))) = Inr g1"
    and g': "grouped' = group_append r loc g1"
    by (auto simp: group_step_def bind_err_Inr)
  show ?thesis
  proof (cases "r \<in> fst ` set grouped")
    case True
    with g1 have "g1 = grouped" by simp
    with g' assms(2) show ?thesis using group_append_nonempty by blast
  next
    case False
    with g1 obtain d where "g1 = grouped @ [(r, d)]" by (auto simp: bind_err_Inr)
    with g' False have "grouped' = grouped @ [(r, d \<lparr> g_locations := g_locations d @ [loc] \<rparr>)]"
      by (simp add: group_append_fresh)
    with assms(2) show ?thesis by auto
  qed
qed

lemma group_issues_nonempty:
  "group_issues grouped issues = Inr grouped' \<Longrightarrow>
   \<forall>e\<in>set grouped. g_locations (snd e) \<noteq> [] \<Longrightarrow>
   \<forall>e\<in>set grouped'. g_locations (snd e) \<noteq> []"
proof (induction issues arbitrary: grouped)
  case Nil
  then show ?case by simp
next
  case (Cons i issues)
  from Cons.prems(1) obtain g1 where s: "group_step grouped i = Inr g1"
    and r: "group_issues g1 issues = Inr grouped'"
    by (auto simp: bind_err_Inr)
  from group_step_nonempty [OF s Cons.prems(2)] Cons.IH [OF r] show ?case by blast
qed

lemma build_merged_mem:
  "build_merged ds = Inr merged \<Longrightarrow> m \<in> set merged \<Longrightarrow>
   \<exists>d\<in>set ds. merged_issue d = Inr m"
proof (induction ds arbitrary: merged)
  case Nil
  then show ?case by simp
next
  case (Cons d ds)
  from Cons.prems(1) obtain m1 ms where m1: "merged_issue d = Inr m1"
    and ms: "build_merged ds = Inr ms" and me: "merged = m1 # ms"
    by (auto simp: bind_err_Inr)
  with Cons.prems(2) Cons.IH [OF ms] show ?case by auto
qed

lemma merge_locations_count:
  "locs \<noteq> [] \<Longrightarrow> l_type (merge_locations locs) = Some (asc ''merged'')
     \<and> l_count (merge_locations locs) = Some (int (length locs))"
  by (simp add: merge_locations_def Let_def)

text \<open>
  C9. Every issue produced by \<^verbatim>\<open>_merge_issues_by_rule\<close> has a summary location of type
  \<^verbatim>\<open>"merged"\<close> whose \<^verbatim>\<open>count\<close> is the length of its \<^verbatim>\<open>raw_locations\<close> list: a group
  is created only together with its first location, so the \<^verbatim>\<open>"unknown"\<close> branch of
  \<^verbatim>\<open>_merge_locations\<close> is never taken here. The merge returns for every list of issues
  that have the six keys read by subscription and a location that is not \<^verbatim>\<open>None\<close>.
\<close>

theorem merged_count_is_raw_length:
  "(merge_issues_by_rule issues = Inr merged \<longrightarrow>
      (\<forall>m\<in>set merged. \<exists>locs summary. raw_locations m = Some locs \<and> location m = Val summary
          \<and> l_type summary = Some (asc ''merged'') \<and> l_count summary = Some (int (length locs))))
   \<and> ((\<forall>i\<in>set issues. issue_complete i) \<longrightarrow> (\<exists>m. merge_issues_by_rule issues = Inr m))"
proof (intro conjI impI ballI)
  fix m
  assume mr: "merge_issues_by_rule issues = Inr merged" and m: "m \<in> set merged"
  from mr obtain grouped where g: "group_issues [] issues = Inr grouped"
    and me: "build_merged (map snd grouped) = Inr merged"
    by (auto simp: merge_issues_by_rule_def bind_err_Inr)
  from build_merged_mem [OF me m] obtain r d where e: "(r, d) \<in> set grouped"
    and md: "merged_issue d = Inr m" by auto
  from group_issues_nonempty [OF g] e have "g_locations d \<noteq> []" by fastforce
  then have "map the (g_locations d) \<noteq> []" by simp
  with md merge_locations_count [of "map the (g_locations d)"]
  show "\<exists>locs summary. raw_locations m = Some locs \<and> location m = Val summary
          \<and> l_type summary = Some (asc ''merged'') \<and> l_count summary = Some (int (length locs))"
    by (auto simp: merged_issue_def Let_def split: if_splits)
next
  assume "\<forall>i\<in>set issues. issue_complete i"
  then show "\<exists>m. merge_issues_by_rule issues = Inr m" by (rule merge_total)
qed

theorem merged_count_is_raw_length_witness:
  "list_all issue_complete ex_issues \<and>
   (\<exists>merged. merge_issues_by_rule ex_issues = Inr merged \<and> merged \<noteq> [] \<and>
      list_all (\<lambda>m. \<exists>locs summary. raw_locations m = Some locs \<and> location m = Val summary
          \<and> l_type summary = Some (asc ''merged'') \<and> l_count summary = Some (int (length locs))) merged)"
proof -
  from ex_issues_complete merged_count_is_raw_length [of ex_issues]
  obtain m where m: "merge_issues_by_rule ex_issues = Inr m" by blast
  have "m \<noteq> []"
  proof
    assume "m = []"
    with m obtain grouped where g: "group_issues [] ex_issues = Inr grouped"
      and b: "build_merged (map snd grouped) = Inr []"
      by (auto simp: merge_issues_by_rule_def bind_err_Inr)
    from b have "grouped = []" by (cases grouped) (auto simp: bind_err_Inr)
    with group_issues_locs [OF g] show False by (simp add: ex_issues_def group_locs_def)
  qed
  with m merged_count_is_raw_length [of ex_issues m] ex_issues_complete
  show ?thesis by (auto simp: list_all_iff)
qed


section \<open>Verification: the display list is capped at 20 items per page\<close>

lemma dict_append_map_of:
  "map_of (dict_append k v d) =
     (map_of d)(k \<mapsto> (case map_of d k of None \<Rightarrow> [v] | Some vs \<Rightarrow> vs @ [v]))"
  by (induction d) (auto simp: fun_eq_iff)

lemma dict_append_keys:
  "map fst (dict_append k v d) = (if k \<in> set (map fst d) then map fst d else map fst d @ [k])"
  by (induction d) (force split: if_splits)+

lemma dict_append_distinct:
  "distinct (map fst d) \<Longrightarrow> distinct (map fst (dict_append k v d))"
  by (simp add: dict_append_keys)

lemma foldl_pages_distinct:
  "distinct (map fst d) \<Longrightarrow>
   distinct (map fst (foldl (\<lambda>pages loc. dict_append (loc_page loc) loc pages) d locs))"
  by (induction locs arbitrary: d) (auto simp: dict_append_distinct)

lemma foldl_pages_map_of:
  "map_of (foldl (\<lambda>pages loc. dict_append (loc_page loc) loc pages) d locs) p =
     (case map_of d p of
        None \<Rightarrow> (if filter (\<lambda>l. loc_page l = p) locs = [] then None
                  else Some (filter (\<lambda>l. loc_page l = p) locs))
      | Some vs \<Rightarrow> Some (vs @ filter (\<lambda>l. loc_page l = p) locs))"
  by (induction locs arbitrary: d) (auto simp: dict_append_map_of split: option.splits)

lemma group_by_page_entry:
  assumes "(p, ls) \<in> set (group_by_page locs)"
  shows "ls = filter (\<lambda>l. loc_page l = p) locs \<and> ls \<noteq> []"
proof -
  have "distinct (map fst (group_by_page locs))"
    unfolding group_by_page_def by (rule foldl_pages_distinct) simp
  with assms have "map_of (group_by_page locs) p = Some ls" by simp
  then show ?thesis
    unfolding group_by_page_def foldl_pages_map_of by (simp split: if_splits)
qed

text \<open>
  C10. Every per-page group built by \<^verbatim>\<open>_build_locations_list\<close> shows at most 20 items,
  the first 20 of the full list of display strings of that page, which is kept in
  \<^verbatim>\<open>all_items\<close>; \<^verbatim>\<open>has_more\<close> is set exactly when the full list is longer than 20.
\<close>

theorem display_items_capped:
  "\<forall>g\<in>set (build_locations_list locations).
     length (pg_items g) \<le> 20
     \<and> pg_items g = take 20 (pg_all_items g)
     \<and> pg_all_items g = page_all_items (filter (\<lambda>l. loc_page l = pg_page g) locations)
     \<and> (pg_has_more g \<longleftrightarrow> length (pg_all_items g) > 20)"
proof
  fix g
  assume "g \<in> set (build_locations_list locations)"
  then obtain p ls where e: "(p, ls) \<in> set (group_by_page locations)" and g: "g = page_entry (p, ls)"
    by (auto simp: build_locations_list_def split: if_splits)
  from group_by_page_entry [OF e] have "ls = filter (\<lambda>l. loc_page l = p) locations" by simp
  with g show "length (pg_items g) \<le> 20
     \<and> pg_items g = take 20 (pg_all_items g)
     \<and> pg_all_items g = page_all_items (filter (\<lambda>l. loc_page l = pg_page g) locations)
     \<and> (pg_has_more g \<longleftrightarrow> length (pg_all_items g) > 20)"
    by (simp add: page_entry_def Let_def)
qed

definition ex_doc_loc :: "nat \<Rightarrow> location" where
  "ex_doc_loc n = empty_location \<lparr> l_type := Some (asc ''document''), l_description := Some (str_nat n) \<rparr>"

definition ex_doc_locs :: "location list" where
  "ex_doc_locs = map ex_doc_loc [0..<21]"

definition ex_group :: page_group where
  "ex_group = \<lparr> pg_page = 1, pg_items = map str_nat [0..<20], pg_all_items = map str_nat [0..<21],
       pg_total = 21, pg_has_more = True \<rparr>"

lemma ex_build: "build_locations_list ex_doc_locs = [ex_group]"
  by code_simp

theorem display_items_capped_witness:
  "build_locations_list ex_doc_locs = [ex_group] \<and> pg_has_more ex_group
     \<and> length (pg_items ex_group) \<le> 20
     \<and> pg_items ex_group = take 20 (pg_all_items ex_group)
     \<and> pg_all_items ex_group = page_all_items (filter (\<lambda>l. loc_page l = pg_page ex_group) ex_doc_locs)
     \<and> length (pg_all_items ex_group) > 20"
proof -
  have "ex_group \<in> set (build_locations_list ex_doc_locs)" by (simp add: ex_build)
  with display_items_capped [of ex_doc_locs]
  have "length (pg_items ex_group) \<le> 20
     \<and> pg_items ex_group = take 20 (pg_all_items ex_group)
     \<and> pg_all_items ex_group = page_all_items (filter (\<lambda>l. loc_page l = pg_page ex_group) ex_doc_locs)
     \<and> (pg_has_more ex_group \<longleftrightarrow> length (pg_all_items ex_group) > 20)" by blast
  moreover have "pg_has_more ex_group" by (simp add: ex_group_def)
  ultimately show ?thesis using ex_build by blast
qed


section \<open>Verification: merging a merged list\<close>

text \<open>
  What a second merge does to an issue that a first merge produced: the summary location
  is the only location it can read.
\<close>

definition remerge_issue :: "issue \<Rightarrow> issue" where
  "remerge_issue m =
     (case location m of
        Val summary \<Rightarrow>
          m \<lparr> location := Val (merge_locations [summary]),
              locations_list := Some (build_locations_list [summary]),
              raw_locations := Some [summary] \<rparr>
      | _ \<Rightarrow> m)"

definition keyed :: "(rid option \<times> group_data) list \<Rightarrow> bool" where
  "keyed grouped = (distinct (map fst grouped) \<and> (\<forall>e\<in>set grouped. g_rule_id (snd e) = fst e))"

lemma subscript_store: "subscript (store v) = Inr v"
  by (cases v) (simp_all add: subscript_def store_def)

lemma group_append_rule_id:
  "\<forall>e\<in>set grouped. g_rule_id (snd e) = fst e \<Longrightarrow>
   \<forall>e\<in>set (group_append r loc grouped). g_rule_id (snd e) = fst e"
  by (induction grouped) (fastforce split: if_splits)+

lemma new_group_rule_id:
  "new_group i = Inr g \<Longrightarrow> subscript (rule_id i) = Inr r \<Longrightarrow> g_rule_id g = r"
  by (auto simp: new_group_def bind_err_Inr)

lemma group_step_keyed:
  assumes "group_step grouped i = Inr grouped'" and "keyed grouped"
  shows "keyed grouped'"
proof -
  from assms(1) obtain r g1 loc where r: "subscript (rule_id i) = Inr r"
    and g1: "(if r \<in> fst ` set grouped then Inr grouped
              else bind_err (new_group i) (\<lambda>g. Inr (grouped @ [(r, g)]))) = Inr g1"
    and g': "grouped' = group_append r loc g1"
    by (auto simp: group_step_def bind_err_Inr)
  have "keyed g1"
  proof (cases "r \<in> fst ` set grouped")
    case True
    with g1 assms(2) show ?thesis by simp
  next
    case False
    with g1 obtain d where d: "new_group i = Inr d" and "g1 = grouped @ [(r, d)]"
      by (auto simp: bind_err_Inr)
    with False assms(2) new_group_rule_id [OF d r] show ?thesis by (auto simp: keyed_def)
  qed
  with g' show ?thesis
    using group_append_rule_id [of g1 r loc] by (simp add: keyed_def group_append_keys)
qed

lemma group_issues_keyed:
  "group_issues grouped issues = Inr grouped' \<Longrightarrow> keyed grouped \<Longrightarrow> keyed grouped'"
proof (induction issues arbitrary: grouped)
  case Nil
  then show ?case by simp
next
  case (Cons i issues)
  from Cons.prems(1) obtain g1 where s: "group_step grouped i = Inr g1"
    and r: "group_issues g1 issues = Inr grouped'"
    by (auto simp: bind_err_Inr)
  from group_step_keyed [OF s Cons.prems(2)] Cons.IH [OF r] show ?case by blast
qed

definition regroup :: "rid option \<times> group_data \<Rightarrow> rid option \<times> group_data" where
  "regroup e =
     (fst e, (snd e) \<lparr> g_locations := [Some (merge_locations (map the (g_locations (snd e))))] \<rparr>)"

lemma merged_issue_fields:
  assumes "merged_issue d = Inr m"
  shows "rule_id m = store (g_rule_id d)" and "rule_name m = store (g_rule_name d)"
    and "category m = store (g_category d)" and "error_message m = store (g_error_message d)"
    and "suggestion m = store (g_suggestion d)" and "fix_action m = g_fix_action d"
    and "fix_params m = g_fix_params d"
    and "location m = Val (merge_locations (map the (g_locations d)))"
  using assms by (auto simp: merged_issue_def Let_def split: if_splits)

lemma group_step_merged:
  assumes "r \<notin> fst ` set g0" and "g_rule_id d = r" and "merged_issue d = Inr m"
  shows "group_step g0 m = Inr (g0 @ [regroup (r, d)])"
proof -
  note f = merged_issue_fields [OF assms(3)]
  have n: "new_group m = Inr (d \<lparr> g_locations := [] \<rparr>)"
    by (simp add: new_group_def f subscript_store bind_err_def)
  have l: "subscript (location m) = Inr (Some (merge_locations (map the (g_locations d))))"
    by (simp add: f subscript_def)
  from assms(1,2) show ?thesis
    by (simp add: group_step_def f(1) subscript_store n l bind_err_def group_append_fresh
        regroup_def)
qed

lemma group_issues_merged:
  "keyed (g0 @ grouped) \<Longrightarrow> build_merged (map snd grouped) = Inr ms \<Longrightarrow>
   group_issues g0 ms = Inr (g0 @ map regroup grouped)"
proof (induction grouped arbitrary: g0 ms)
  case Nil
  then show ?case by simp
next
  case (Cons e grouped)
  obtain r d where e: "e = (r, d)" by (cases e)
  from Cons.prems(2) e obtain m ms' where m: "merged_issue d = Inr m"
    and ms': "build_merged (map snd grouped) = Inr ms'" and ms: "ms = m # ms'"
    by (auto simp: bind_err_Inr)
  from Cons.prems(1) e have fresh: "r \<notin> fst ` set g0" and id: "g_rule_id d = r"
    by (auto simp: keyed_def)
  have "keyed ((g0 @ [regroup (r, d)]) @ grouped)"
    using Cons.prems(1) e by (auto simp: keyed_def regroup_def)
  from Cons.IH [OF this ms'] group_step_merged [OF fresh id m] e ms
  show ?case by (simp add: bind_err_def)
qed

lemma merged_regroup:
  "merged_issue d = Inr m \<Longrightarrow> merged_issue (snd (regroup (r, d))) = Inr (remerge_issue m)"
  by (auto simp: regroup_def merged_issue_def remerge_issue_def Let_def split: if_splits)

lemma build_merged_regroup:
  "build_merged (map snd grouped) = Inr ms \<Longrightarrow>
   build_merged (map snd (map regroup grouped)) = Inr (map remerge_issue ms)"
proof (induction grouped arbitrary: ms)
  case Nil
  then show ?case by simp
next
  case (Cons e grouped)
  obtain r d where e: "e = (r, d)" by (cases e)
  from Cons.prems e obtain m ms' where m: "merged_issue d = Inr m"
    and ms': "build_merged (map snd grouped) = Inr ms'" and ms: "ms = m # ms'"
    by (auto simp: bind_err_Inr)
  from Cons.IH [OF ms'] merged_regroup [OF m, of r] e ms
  show ?case by (simp add: bind_err_def)
qed

lemma merge_of_merged:
  assumes "merge_issues_by_rule issues = Inr merged"
  shows "merge_issues_by_rule merged = Inr (map remerge_issue merged)"
proof -
  from assms obtain grouped where g: "group_issues [] issues = Inr grouped"
    and me: "build_merged (map snd grouped) = Inr merged"
    by (auto simp: merge_issues_by_rule_def bind_err_Inr)
  have "keyed []" by (simp add: keyed_def)
  with group_issues_keyed [OF g] have "keyed ([] @ grouped)" by simp
  from group_issues_merged [OF this me]
  have "group_issues [] merged = Inr (map regroup grouped)" by simp
  with build_merged_regroup [OF me] show ?thesis
    by (simp add: merge_issues_by_rule_def bind_err_def)
qed

text \<open>
  C2 (as amended). Merging the output of a merge returns the same issues in the same order
  with the same rule-level fields, but not the same locations: every issue's
  \<^verbatim>\<open>raw_locations\<close> becomes the one-element list holding the summary location of the
  first merge, and \<^verbatim>\<open>location\<close> and \<^verbatim>\<open>locations_list\<close> are rebuilt from that list.
\<close>

theorem remerge_keeps_rule_fields:
  "merge_issues_by_rule issues = Inr merged \<Longrightarrow>
   merge_issues_by_rule merged = Inr (map remerge_issue merged)"
  by (rule merge_of_merged)

definition ex_single :: "issue list" where
  "ex_single = [ex_issue (RInt 1) (ex_para_loc 0)]"

definition ex_single_merged :: issue where
  "ex_single_merged =
     \<lparr> rule_id = Val (RInt 1), rule_name = Val (asc ''font check''), category = Val (asc ''font''),
       error_message = Val (asc ''wrong font''), suggestion = Val (asc ''change the font''),
       fix_action = None, fix_params = None,
       location = Val (merge_locations [ex_para_loc 0]),
       locations_list = Some (build_locations_list [ex_para_loc 0]),
       raw_locations = Some [ex_para_loc 0] \<rparr>"

lemma ex_single_merge: "merge_issues_by_rule ex_single = Inr [ex_single_merged]"
  by (simp add: ex_single_def ex_issue_def merge_issues_by_rule_def group_step_def new_group_def
      bind_err_def subscript_def merged_issue_def store_def ex_single_merged_def Let_def)

text \<open>
  C2 (as stated) fails: merging the merge of a single paragraph issue replaces its raw
  location by the summary location, so the second result differs from the first.
\<close>

theorem merge_not_idempotent:
  "bind_err (merge_issues_by_rule ex_single) merge_issues_by_rule \<noteq> merge_issues_by_rule ex_single"
proof
  assume eq: "bind_err (merge_issues_by_rule ex_single) merge_issues_by_rule
                = merge_issues_by_rule ex_single"
  from merge_of_merged [OF ex_single_merge] ex_single_merge eq
  have "remerge_issue ex_single_merged = ex_single_merged"
    by (simp add: bind_err_def)
  then have "raw_locations (remerge_issue ex_single_merged) = raw_locations ex_single_merged"
    by simp
  then have "merge_locations [ex_para_loc 0] = ex_para_loc 0"
    by (simp add: remerge_issue_def ex_single_merged_def)
  then have "l_type (merge_locations [ex_para_loc 0]) = l_type (ex_para_loc 0)" by simp
  then show False
    by (simp add: merge_locations_def ex_para_loc_def empty_location_def asc_def)
qed

theorem remerge_keeps_rule_fields_witness:
  "merge_issues_by_rule ex_single = Inr [ex_single_merged]
      \<and> merge_issues_by_rule [ex_single_merged] = Inr [remerge_issue ex_single_merged]
      \<and> raw_locations ex_single_merged = Some [ex_para_loc 0]
      \<and> raw_locations (remerge_issue ex_single_merged) = Some [merge_locations [ex_para_loc 0]]
      \<and> rule_id (remerge_issue ex_single_merged) = rule_id ex_single_merged
      \<and> error_message (remerge_issue ex_single_merged) = error_message ex_single_merged"
proof -
  from remerge_keeps_rule_fields [OF ex_single_merge]
  have "merge_issues_by_rule [ex_single_merged] = Inr [remerge_issue ex_single_merged]"
    by simp
  with ex_single_merge show ?thesis by (simp add: remerge_issue_def ex_single_merged_def)
qed



section \<open>Verification: heading hierarchy\<close>

definition is_jump :: "target \<Rightarrow> target \<Rightarrow> bool" where
  "is_jump p c = (heading_level c \<noteq> 1 \<and> heading_level c > heading_level p + 1)"

definition level_jumps :: "target list \<Rightarrow> (target \<times> target) list" where
  "level_jumps hs = filter (\<lambda>(p, c). is_jump p c) (zip hs (tl hs))"

text \<open>
  What is compared of a reported issue: its rule, its message, and the heading it points
  to. The expected message is spelled out here: it names the level before the jump, the
  level after it, and as the missing level the level before the jump plus one.
\<close>

definition jump_report :: "issue \<Rightarrow> rid entry \<times> ustr entry \<times> int option option \<times> ustr option option" where
  "jump_report i = (rule_id i, error_message i,
     map_option l_paragraph_index (get_key (location i)),
     map_option l_text (get_key (location i)))"

definition missing_level_message :: "int \<Rightarrow> int \<Rightarrow> int \<Rightarrow> ustr" where
  "missing_level_message before after missing =
     [26631, 39064, 23618, 32423, 20174] @ str_int before
     @ [32423, 36339, 36716, 21040] @ str_int after
     @ [32423, 65292, 20013, 38388, 32570, 23569] @ str_int missing
     @ [32423, 26631, 39064]"

definition expected_report :: "target \<times> target \<Rightarrow> rid entry \<times> ustr entry \<times> int option option \<times> ustr option option" where
  "expected_report e = (Val (RStr (asc ''HEADING_LEVEL_JUMP'')),
     Val (missing_level_message (get_or (t_level (fst e)) 1) (get_or (t_level (snd e)) 1)
            (get_or (t_level (fst e)) 1 + 1)),
     Some (t_paragraph_index (snd e)), Some (t_text (snd e)))"

definition page_lookup_ok :: "target list \<Rightarrow> target \<Rightarrow> bool" where
  "page_lookup_ok ps h = (case t_paragraph_index h of None \<Rightarrow> True | Some i \<Rightarrow> - int (length ps) \<le> i)"

lemma jump_issue_report:
  "jump_report (jump_issue p c page) = expected_report (p, c)"
  by (simp add: jump_report_def expected_report_def jump_issue_def structure_issue_def Let_def
      jump_message_def missing_level_message_def heading_level_def get_key_def)

lemma hierarchy_loop_reports:
  "hierarchy_loop ps hs idxs acc = Inr r \<Longrightarrow>
   map jump_report r = map jump_report acc
     @ map (\<lambda>i. expected_report (hs ! (i - 1), hs ! i))
         (filter (\<lambda>i. is_jump (hs ! (i - 1)) (hs ! i)) idxs)"
proof (induction idxs arbitrary: acc)
  case Nil
  then show ?case by simp
next
  case (Cons i idxs)
  show ?case
  proof (cases "is_jump (hs ! (i - 1)) (hs ! i)")
    case True
    with Cons.prems obtain page where
      "hierarchy_loop ps hs idxs (acc @ [jump_issue (hs ! (i - 1)) (hs ! i) page]) = Inr r"
      by (auto simp: is_jump_def Let_def bind_err_Inr)
    from Cons.IH [OF this] True show ?thesis by (simp add: jump_issue_report)
  next
    case False
    with Cons.prems have "hierarchy_loop ps hs idxs acc = Inr r"
      by (auto simp: is_jump_def Let_def split: if_splits)
    from Cons.IH [OF this] False show ?thesis by simp
  qed
qed

lemma get_heading_page_total:
  "page_lookup_ok ps h \<Longrightarrow> \<exists>page. get_heading_page ps (t_paragraph_index h) = Inr page"
  by (auto simp: page_lookup_ok_def get_heading_page_def py_index_def bind_err_def Let_def
      split: option.splits)

lemma hierarchy_loop_total:
  "\<forall>i\<in>set idxs. page_lookup_ok ps (hs ! i) \<Longrightarrow> \<exists>r. hierarchy_loop ps hs idxs acc = Inr r"
proof (induction idxs arbitrary: acc)
  case Nil
  then show ?case by simp
next
  case (Cons i idxs)
  then obtain page where "get_heading_page ps (t_paragraph_index (hs ! i)) = Inr page"
    using get_heading_page_total [of ps "hs ! i"] by auto
  with Cons show ?case by (simp add: Let_def bind_err_def)
qed

lemma adjacent_pairs: "map (\<lambda>i. (hs ! (i - 1), hs ! i)) [1..<length hs] = zip hs (tl hs)"
  by (rule nth_equalityI) (auto simp: nth_tl)

lemma check_heading_hierarchy_reports:
  assumes "check_heading_hierarchy doc = Inr issues"
  shows "map jump_report issues = map expected_report (level_jumps (d_headings doc))"
proof (cases "length (d_headings doc) < 2")
  case True
  then have "zip (d_headings doc) (tl (d_headings doc)) = []"
    by (cases "d_headings doc") (auto simp: Suc_less_eq2)
  then have "level_jumps (d_headings doc) = []" by (auto simp: level_jumps_def)
  moreover from True assms have "issues = []" by (simp add: check_heading_hierarchy_def)
  ultimately show ?thesis by simp
next
  case False
  let ?hs = "d_headings doc"
  from False assms have "hierarchy_loop (d_paragraphs doc) ?hs [1..<length ?hs] [] = Inr issues"
    by (simp add: check_heading_hierarchy_def Let_def)
  from hierarchy_loop_reports [OF this]
  have "map jump_report issues = map expected_report
          (filter (\<lambda>(p, c). is_jump p c) (map (\<lambda>i. (?hs ! (i - 1), ?hs ! i)) [1..<length ?hs]))"
    by (simp add: filter_map comp_def)
  then show ?thesis by (simp only: adjacent_pairs level_jumps_def)
qed

lemma check_heading_hierarchy_total:
  assumes "\<forall>h\<in>set (d_headings doc). page_lookup_ok (d_paragraphs doc) h"
  shows "\<exists>issues. check_heading_hierarchy doc = Inr issues"
proof -
  have "\<forall>i\<in>set [1..<length (d_headings doc)]. page_lookup_ok (d_paragraphs doc) (d_headings doc ! i)"
    using assms by simp
  from hierarchy_loop_total [OF this] show ?thesis
    by (simp add: check_heading_hierarchy_def Let_def)
qed


lemma three_levels:
  "map heading_level hs = [a, b, c] \<Longrightarrow>
   \<exists>x y z. hs = [x, y, z] \<and> heading_level x = a \<and> heading_level y = b \<and> heading_level z = c"
  by (auto simp: map_eq_Cons_conv)

lemma two_levels:
  "map heading_level hs = [a, b] \<Longrightarrow>
   \<exists>x y. hs = [x, y] \<and> heading_level x = a \<and> heading_level y = b"
  by (auto simp: map_eq_Cons_conv)

lemma levels_123: "map heading_level (d_headings doc) = [1, 2, 3] \<Longrightarrow> check_heading_hierarchy doc = Inr []"
  by (drule three_levels) (auto simp: check_heading_hierarchy_def Let_def)

lemma levels_112: "map heading_level (d_headings doc) = [1, 1, 2] \<Longrightarrow> check_heading_hierarchy doc = Inr []"
  by (drule three_levels) (auto simp: check_heading_hierarchy_def Let_def)

lemma one_jump:
  assumes "map heading_level (d_headings doc) = [a, b]" and "b \<noteq> 1" and "b > a + 1"
    and "\<forall>h\<in>set (d_headings doc). page_lookup_ok (d_paragraphs doc) h"
  shows "\<exists>issue. check_heading_hierarchy doc = Inr [issue]
           \<and> error_message issue = Val (jump_message a b)"
proof -
  from two_levels [OF assms(1)] obtain x y where hs: "d_headings doc = [x, y]"
    and x: "heading_level x = a" and y: "heading_level y = b" by blast
  from assms(4) hs obtain page where
    "get_heading_page (d_paragraphs doc) (t_paragraph_index y) = Inr page"
    using get_heading_page_total [of "d_paragraphs doc" y] by auto
  with hs x y assms(2,3) have "check_heading_hierarchy doc = Inr [jump_issue x y page]"
    by (simp add: check_heading_hierarchy_def Let_def bind_err_def)
  moreover have "error_message (jump_issue x y page) = Val (jump_message a b)"
    using x y by (simp add: jump_issue_def structure_issue_def Let_def)
  ultimately show ?thesis by blast
qed

lemma jump_message_1_3:
  "jump_message 1 3 = [26631, 39064, 23618, 32423, 20174, 49, 32423, 36339, 36716, 21040, 51,
     32423, 65292, 20013, 38388, 32570, 23569, 50, 32423, 26631, 39064]"
  by (simp add: jump_message_def str_int_def str_nat.simps)

lemma jump_message_1_4:
  "jump_message 1 4 = [26631, 39064, 23618, 32423, 20174, 49, 32423, 36339, 36716, 21040, 52,
     32423, 65292, 20013, 38388, 32570, 23569, 50, 32423, 26631, 39064]"
  by (simp add: jump_message_def str_int_def str_nat.simps)

lemma levels_13:
  assumes "map heading_level (d_headings doc) = [1, 3]"
    and "\<forall>h\<in>set (d_headings doc). page_lookup_ok (d_paragraphs doc) h"
  shows "\<exists>issue. check_heading_hierarchy doc = Inr [issue]
           \<and> error_message issue = Val [26631, 39064, 23618, 32423, 20174, 49, 32423, 36339,
                36716, 21040, 51, 32423, 65292, 20013, 38388, 32570, 23569, 50, 32423, 26631, 39064]"
  using one_jump [OF assms(1) _ _ assms(2)] by (simp add: jump_message_1_3)

lemma levels_14:
  assumes "map heading_level (d_headings doc) = [1, 4]"
    and "\<forall>h\<in>set (d_headings doc). page_lookup_ok (d_paragraphs doc) h"
  shows "\<exists>issue. check_heading_hierarchy doc = Inr [issue]
           \<and> error_message issue = Val [26631, 39064, 23618, 32423, 20174, 49, 32423, 36339,
                36716, 21040, 52, 32423, 65292, 20013, 38388, 32570, 23569, 50, 32423, 26631, 39064]"
  using one_jump [OF assms(1) _ _ assms(2)] by (simp add: jump_message_1_4)

text \<open>
  C5. \<^verbatim>\<open>check_heading_hierarchy\<close> reports exactly the headings whose level is more than
  one deeper than the level of the heading just before them and is not 1, in document
  order; the message of each report names the missing level, the previous level plus one.
  Levels \<open>[1, 2, 3]\<close> and \<open>[1, 1, 2]\<close> give no issue; levels \<open>[1, 3]\<close> give exactly one,
  whose message names level 2 as missing, and so do levels \<open>[1, 4]\<close>. The check returns
  whenever the page of every heading can be looked up (no paragraph index below minus the
  number of paragraphs).
\<close>

theorem heading_hierarchy_reports_jumps:
  "(check_heading_hierarchy doc = Inr issues \<longrightarrow>
      map jump_report issues = map expected_report (level_jumps (d_headings doc)))
   \<and> ((\<forall>h\<in>set (d_headings doc). page_lookup_ok (d_paragraphs doc) h) \<longrightarrow>
        (\<exists>r. check_heading_hierarchy doc = Inr r))
   \<and> (map heading_level (d_headings doc) = [1, 2, 3] \<longrightarrow> check_heading_hierarchy doc = Inr [])
   \<and> (map heading_level (d_headings doc) = [1, 1, 2] \<longrightarrow> check_heading_hierarchy doc = Inr [])
   \<and> (map heading_level (d_headings doc) = [1, 3]
        \<and> (\<forall>h\<in>set (d_headings doc). page_lookup_ok (d_paragraphs doc) h) \<longrightarrow>
        (\<exists>issue. check_heading_hierarchy doc = Inr [issue]
           \<and> error_message issue = Val [26631, 39064, 23618, 32423, 20174, 49, 32423, 36339,
                36716, 21040, 51, 32423, 65292, 20013, 38388, 32570, 23569, 50, 32423, 26631, 39064]))
   \<and> (map heading_level (d_headings doc) = [1, 4]
        \<and> (\<forall>h\<in>set (d_headings doc). page_lookup_ok (d_paragraphs doc) h) \<longrightarrow>
        (\<exists>issue. check_heading_hierarchy doc = Inr [issue]
           \<and> error_message issue = Val [26631, 39064, 23618, 32423, 20174, 49, 32423, 36339,
                36716, 21040, 52, 32423, 65292, 20013, 38388, 32570, 23569, 50, 32423, 26631, 39064]))"
proof (intro conjI impI)
  assume "check_heading_hierarchy doc = Inr issues"
  then show "map jump_report issues = map expected_report (level_jumps (d_headings doc))"
    by (rule check_heading_hierarchy_reports)
next
  assume "\<forall>h\<in>set (d_headings doc). page_lookup_ok (d_paragraphs doc) h"
  then show "\<exists>r. check_heading_hierarchy doc = Inr r"
    by (rule check_heading_hierarchy_total)
next
  assume "map heading_level (d_headings doc) = [1, 2, 3]"
  then show "check_heading_hierarchy doc = Inr []" by (rule levels_123)
next
  assume "map heading_level (d_headings doc) = [1, 1, 2]"
  then show "check_heading_hierarchy doc = Inr []" by (rule levels_112)
next
  assume "map heading_level (d_headings doc) = [1, 3]
        \<and> (\<forall>h\<in>set (d_headings doc). page_lookup_ok (d_paragraphs doc) h)"
  then show "\<exists>issue. check_heading_hierarchy doc = Inr [issue]
           \<and> error_message issue = Val [26631, 39064, 23618, 32423, 20174, 49, 32423, 36339,
                36716, 21040, 51, 32423, 65292, 20013, 38388, 32570, 23569, 50, 32423, 26631, 39064]"
    using levels_13 [of doc] by simp
next
  assume "map heading_level (d_headings doc) = [1, 4]
        \<and> (\<forall>h\<in>set (d_headings doc). page_lookup_ok (d_paragraphs doc) h)"
  then show "\<exists>issue. check_heading_hierarchy doc = Inr [issue]
           \<and> error_message issue = Val [26631, 39064, 23618, 32423, 20174, 49, 32423, 36339,
                36716, 21040, 52, 32423, 65292, 20013, 38388, 32570, 23569, 50, 32423, 26631, 39064]"
    using levels_14 [of doc] by simp
qed

definition ex_heading :: "int \<Rightarrow> int \<Rightarrow> target" where
  "ex_heading level para = empty_target \<lparr> t_text := Some (asc ''Heading''), t_level := Some level,
     t_paragraph_index := Some para \<rparr>"

definition ex_paragraph :: "int \<Rightarrow> int \<Rightarrow> target" where
  "ex_paragraph idx page = empty_target \<lparr> t_index := Some idx, t_page_number := Some page \<rparr>"

definition ex_doc :: "int list \<Rightarrow> toc option \<Rightarrow> doc_data" where
  "ex_doc levels toc =
     \<lparr> d_page_settings = None,
       d_paragraphs = map (\<lambda>i. ex_paragraph (int i) 2) [0..<length levels],
       d_runs = [],
       d_headings = map (\<lambda>i. ex_heading (levels ! i) (int i)) [0..<length levels],
       d_tables = [], d_figures = [],
       d_table_of_contents = toc \<rparr>"

lemma ex_doc_levels:
  "map heading_level (d_headings (ex_doc levels toc)) = levels"
  by (rule nth_equalityI) (simp_all add: ex_doc_def ex_heading_def heading_level_def get_or_def empty_target_def)

lemma ex_doc_lookup:
  "\<forall>h\<in>set (d_headings (ex_doc levels toc)). page_lookup_ok (d_paragraphs (ex_doc levels toc)) h"
  by (auto simp: ex_doc_def ex_heading_def page_lookup_ok_def empty_target_def)

lemma expected_report_1_4:
  "map expected_report (level_jumps (d_headings (ex_doc [1, 4] None)))
     = [(Val (RStr (asc ''HEADING_LEVEL_JUMP'')),
         Val [26631, 39064, 23618, 32423, 20174, 49, 32423, 36339, 36716, 21040, 52,
              32423, 65292, 20013, 38388, 32570, 23569, 50, 32423, 26631, 39064],
         Some (Some 1), Some (Some (asc ''Heading'')))]"
  by (simp add: level_jumps_def is_jump_def heading_level_def expected_report_def
      missing_level_message_def ex_doc_def ex_heading_def empty_target_def get_or_def
      str_int_def str_nat.simps)

theorem heading_hierarchy_reports_jumps_witness:
  "check_heading_hierarchy (ex_doc [1, 2, 3] None) = Inr []
   \<and> check_heading_hierarchy (ex_doc [1, 1, 2] None) = Inr []
   \<and> (\<exists>issue. check_heading_hierarchy (ex_doc [1, 3] None) = Inr [issue]
        \<and> error_message issue = Val [26631, 39064, 23618, 32423, 20174, 49, 32423, 36339, 36716,
             21040, 51, 32423, 65292, 20013, 38388, 32570, 23569, 50, 32423, 26631, 39064]
        \<and> map jump_report [issue] = map expected_report (level_jumps (d_headings (ex_doc [1, 3] None))))
   \<and> (\<exists>issue. check_heading_hierarchy (ex_doc [1, 4] None) = Inr [issue]
        \<and> error_message issue = Val [26631, 39064, 23618, 32423, 20174, 49, 32423, 36339, 36716,
             21040, 52, 32423, 65292, 20013, 38388, 32570, 23569, 50, 32423, 26631, 39064]
        \<and> map jump_report [issue]
            = [(Val (RStr (asc ''HEADING_LEVEL_JUMP'')),
                Val [26631, 39064, 23618, 32423, 20174, 49, 32423, 36339, 36716, 21040, 52,
                     32423, 65292, 20013, 38388, 32570, 23569, 50, 32423, 26631, 39064],
                Some (Some 1), Some (Some (asc ''Heading'')))])"
proof -
  note l = ex_doc_levels ex_doc_lookup
  have a: "check_heading_hierarchy (ex_doc [1, 2, 3] None) = Inr []"
    using heading_hierarchy_reports_jumps [of "ex_doc [1, 2, 3] None" "[]"] l by simp
  have b: "check_heading_hierarchy (ex_doc [1, 1, 2] None) = Inr []"
    using heading_hierarchy_reports_jumps [of "ex_doc [1, 1, 2] None" "[]"] l by simp
  obtain issue where i: "check_heading_hierarchy (ex_doc [1, 3] None) = Inr [issue]"
    and m: "error_message issue = Val [26631, 39064, 23618, 32423, 20174, 49, 32423, 36339, 36716,
             21040, 51, 32423, 65292, 20013, 38388, 32570, 23569, 50, 32423, 26631, 39064]"
    using heading_hierarchy_reports_jumps [of "ex_doc [1, 3] None" "[]"] l by auto
  from i heading_hierarchy_reports_jumps [of "ex_doc [1, 3] None" "[issue]"]
  have r: "map jump_report [issue] = map expected_report (level_jumps (d_headings (ex_doc [1, 3] None)))"
    by blast
  obtain issue4 where i4: "check_heading_hierarchy (ex_doc [1, 4] None) = Inr [issue4]"
    and m4: "error_message issue4 = Val [26631, 39064, 23618, 32423, 20174, 49, 32423, 36339, 36716,
             21040, 52, 32423, 65292, 20013, 38388, 32570, 23569, 50, 32423, 26631, 39064]"
    using heading_hierarchy_reports_jumps [of "ex_doc [1, 4] None" "[]"] l by auto
  from i4 heading_hierarchy_reports_jumps [of "ex_doc [1, 4] None" "[issue4]"]
  have "map jump_report [issue4] = map expected_report (level_jumps (d_headings (ex_doc [1, 4] None)))"
    by blast
  then have r4: "map jump_report [issue4]
            = [(Val (RStr (asc ''HEADING_LEVEL_JUMP'')),
                Val [26631, 39064, 23618, 32423, 20174, 49, 32423, 36339, 36716, 21040, 52,
                     32423, 65292, 20013, 38388, 32570, 23569, 50, 32423, 26631, 39064],
                Some (Some 1), Some (Some (asc ''Heading'')))]"
    by (simp only: expected_report_1_4)
  have c: "\<exists>issue. check_heading_hierarchy (ex_doc [1, 3] None) = Inr [issue]
        \<and> error_message issue = Val [26631, 39064, 23618, 32423, 20174, 49, 32423, 36339, 36716,
             21040, 51, 32423, 65292, 20013, 38388, 32570, 23569, 50, 32423, 26631, 39064]
        \<and> map jump_report [issue] = map expected_report (level_jumps (d_headings (ex_doc [1, 3] None)))"
    using i m r by (intro exI [of _ issue] conjI)
  have d: "\<exists>issue. check_heading_hierarchy (ex_doc [1, 4] None) = Inr [issue]
        \<and> error_message issue = Val [26631, 39064, 23618, 32423, 20174, 49, 32423, 36339, 36716,
             21040, 52, 32423, 65292, 20013, 38388, 32570, 23569, 50, 32423, 26631, 39064]
        \<and> map jump_report [issue]
            = [(Val (RStr (asc ''HEADING_LEVEL_JUMP'')),
                Val [26631, 39064, 23618, 32423, 20174, 49, 32423, 36339, 36716, 21040, 52,
                     32423, 65292, 20013, 38388, 32570, 23569, 50, 32423, 26631, 39064],
                Some (Some 1), Some (Some (asc ''Heading'')))]"
    using i4 m4 r4 by (intro exI [of _ issue4] conjI)
  show ?thesis by (intro conjI) (fact a, fact b, fact c, fact d)
qed


section \<open>Verification: degenerate tables of contents\<close>

text \<open>
  C7. Without a table of contents (no \<^verbatim>\<open>table_of_contents\<close> entry, or \<^verbatim>\<open>exists\<close> absent
  or false) \<^verbatim>\<open>check_toc_body_consistency\<close> returns the single issue \<^verbatim>\<open>TOC_MISSING\<close>; with a
  table of contents that has no entries it returns the single issue \<^verbatim>\<open>TOC_EMPTY\<close>. Neither
  depends on the headings or paragraphs of the document.
\<close>

theorem toc_degenerate_short_circuit:
  "((d_table_of_contents doc = None
       \<or> (\<exists>t. d_table_of_contents doc = Some t \<and> toc_exists t \<noteq> Some True))
      \<longrightarrow> check_toc_body_consistency doc = Inr [toc_missing_issue])
   \<and> ((\<exists>t. d_table_of_contents doc = Some t \<and> toc_exists t = Some True \<and> toc_entries t = [])
      \<longrightarrow> check_toc_body_consistency doc = Inr [toc_empty_issue])"
  by (auto simp: check_toc_body_consistency_def Let_def)

definition ex_toc :: "bool \<Rightarrow> toc" where
  "ex_toc e = \<lparr> toc_exists = Some e, toc_entries = [] \<rparr>"

theorem toc_degenerate_short_circuit_witness:
  "check_toc_body_consistency (ex_doc [1, 3] None) = Inr [toc_missing_issue]
   \<and> check_toc_body_consistency (ex_doc [1, 3] (Some (ex_toc False))) = Inr [toc_missing_issue]
   \<and> check_toc_body_consistency (ex_doc [1, 3] (Some (ex_toc True))) = Inr [toc_empty_issue]
   \<and> rule_id toc_missing_issue = Val (RStr (asc ''TOC_MISSING''))
   \<and> rule_id toc_empty_issue = Val (RStr (asc ''TOC_EMPTY''))
   \<and> length (d_headings (ex_doc [1, 3] None)) = 2"
  using toc_degenerate_short_circuit [of "ex_doc [1, 3] None"]
    toc_degenerate_short_circuit [of "ex_doc [1, 3] (Some (ex_toc False))"]
    toc_degenerate_short_circuit [of "ex_doc [1, 3] (Some (ex_toc True))"]
  by (simp add: ex_doc_def ex_toc_def toc_missing_issue_def toc_empty_issue_def structure_issue_def)


section \<open>Verification: unresolved fonts are never flagged\<close>

definition font_unresolved :: "target \<Rightarrow> bool" where
  "font_unresolved target =
     (case t_font target of None \<Rightarrow> True | Some f \<Rightarrow> f_name f = None \<or> f_size_pt f = None)"

lemma unresolved_font_condition:
  "font_unresolved target \<Longrightarrow> match_font_condition target condition = Inr True"
  by (auto simp: font_unresolved_def match_font_condition_def get_or_def empty_font_def Let_def
      split: option.splits)

lemma unresolved_level_condition:
  "font_unresolved target \<Longrightarrow> match_level_condition target level_condition = Inr True"
  by (auto simp: font_unresolved_def match_level_condition_def get_or_def empty_font_def Let_def
      split: option.splits)

lemma unresolved_heading_condition:
  "font_unresolved target \<Longrightarrow> match_type \<noteq> asc ''section'' \<Longrightarrow>
   match_heading_condition target condition match_type = Inr True"
  by (simp add: match_heading_condition_def unresolved_level_condition split: option.splits)

text \<open>
  C3. A target whose font name or font size is unresolved (\<^verbatim>\<open>None\<close>, or no font at all)
  passes every font condition, and passes every heading condition that is evaluated per
  level, that is for every match type but \<^verbatim>\<open>"section"\<close> (a section rule checks only the
  numbering of the title and never reads the font). The same holds through
  \<^verbatim>\<open>_match_condition\<close> for the categories \<^verbatim>\<open>"font"\<close> and \<^verbatim>\<open>"heading"\<close>.
\<close>

theorem skip_on_uncertainty:
  assumes "font_unresolved target"
  shows "match_font_condition target condition = Inr True
    \<and> match_condition str_lower target condition (Some (asc ''font'')) match_type = Inr True
    \<and> (match_type \<noteq> asc ''section'' \<longrightarrow>
         match_heading_condition target condition match_type = Inr True
         \<and> match_condition str_lower target condition (Some (asc ''heading'')) match_type = Inr True)"
proof -
  have f: "match_font_condition target condition = Inr True"
    using assms by (rule unresolved_font_condition)
  have "asc ''font'' \<noteq> asc ''page''" and "asc ''heading'' \<noteq> asc ''page''"
    and "asc ''heading'' \<noteq> asc ''font''" and "asc ''heading'' \<noteq> asc ''paragraph''"
    by (simp_all add: asc_def)
  then have c: "match_condition str_lower target condition (Some (asc ''font'')) match_type
             = match_font_condition target condition"
    and h: "match_condition str_lower target condition (Some (asc ''heading'')) match_type
             = match_heading_condition target condition match_type"
    by (simp_all add: match_condition_def)
  show ?thesis
    using f c h unresolved_heading_condition [OF assms, of match_type condition] by simp
qed

definition ex_font_condition :: condition where
  "ex_font_condition = empty_condition \<lparr> c_chinese_font := Some (asc ''SimSun''),
     c_chinese_size_pt := Some (PInt 12),
     c_levels := [(asc ''level1'', \<lparr> lc_font = Some (asc ''SimHei''), lc_size_pt = Some (PInt 16),
                     lc_bold = Some True, lc_alignment = None \<rparr>)] \<rparr>"

definition ex_run :: "ustr option \<Rightarrow> pynum option \<Rightarrow> target" where
  "ex_run name sz = empty_target \<lparr> t_text := Some [27491, 25991], t_level := Some 1,
     t_paragraph_index := Some 0,
     t_font := Some \<lparr> f_name = name, f_size_pt = sz, f_bold = Some False \<rparr> \<rparr>"

theorem skip_on_uncertainty_witness:
  "font_unresolved (ex_run None (Some (PInt 12)))
   \<and> font_unresolved (ex_run (Some (asc ''Arial'')) None)
   \<and> match_font_condition (ex_run None (Some (PInt 12))) ex_font_condition = Inr True
   \<and> match_heading_condition (ex_run (Some (asc ''Arial'')) None) ex_font_condition (asc ''heading'')
       = Inr True
   \<and> match_font_condition (ex_run (Some (asc ''Arial'')) (Some (PInt 12))) ex_font_condition = Inr False
   \<and> match_heading_condition (ex_run (Some (asc ''Arial'')) (Some (PInt 12))) ex_font_condition
       (asc ''heading'') = Inr False"
proof -
  have u1: "font_unresolved (ex_run None (Some (PInt 12)))"
    and u2: "font_unresolved (ex_run (Some (asc ''Arial'')) None)"
    by (simp_all add: font_unresolved_def ex_run_def)
  have s: "asc ''heading'' \<noteq> asc ''section''" by (simp add: asc_def)
  have r1: "match_font_condition (ex_run (Some (asc ''Arial'')) (Some (PInt 12))) ex_font_condition
              = Inr False"
    by (simp add: match_font_condition_def ex_run_def ex_font_condition_def empty_condition_def
        empty_target_def get_or_def contains_chinese_def normalize_font_name_def font_map_def
        strip_def py_isspace_def asc_def)
  have r2: "match_heading_condition (ex_run (Some (asc ''Arial'')) (Some (PInt 12))) ex_font_condition
       (asc ''heading'') = Inr False"
    by (simp add: match_heading_condition_def match_level_condition_def ex_run_def
        ex_font_condition_def empty_condition_def empty_target_def get_or_def level_key_def
        str_int_def str_nat.simps asc_def)
  from skip_on_uncertainty [OF u1, of ex_font_condition id "asc ''run''"]
    skip_on_uncertainty [OF u2, of ex_font_condition id "asc ''heading''"] u1 u2 s r1 r2
  show ?thesis by simp
qed


section \<open>Verification: the page margin tolerance\<close>

subsection \<open>Rounding to a double\<close>

text \<open>
  When \<open>\<bar>x\<bar> * 2 ^ k\<close> lies between \<open>2 ^ 52\<close> and \<open>2 ^ 53\<close>, the double nearest to \<open>x\<close> is
  \<open>x * 2 ^ k\<close> rounded to an integer, over \<open>2 ^ k\<close>.
\<close>

lemma bit_length_bounds: "n \<noteq> 0 \<Longrightarrow> 2 ^ (bit_length n - 1) \<le> n \<and> n < 2 ^ bit_length n"
proof (induction n rule: bit_length.induct)
  case (1 n)
  show ?case
  proof (cases "n div 2 = 0")
    case True
    with 1 have "n = 1" by (simp add: div_eq_0_iff)
    then show ?thesis by (simp add: bit_length.simps)
  next
    case False
    with 1 have ih: "2 ^ (bit_length (n div 2) - 1) \<le> n div 2 \<and> n div 2 < 2 ^ bit_length (n div 2)"
      by simp
    from False have pos: "bit_length (n div 2) \<noteq> 0" by (subst bit_length.simps) simp
    have b: "bit_length n = Suc (bit_length (n div 2))" using 1(2) by (subst bit_length.simps) simp
    from pos have "(2::nat) ^ bit_length (n div 2) = 2 * 2 ^ (bit_length (n div 2) - 1)"
      by (cases "bit_length (n div 2)") simp_all
    with ih have "2 ^ bit_length (n div 2) \<le> n" by linarith
    moreover from ih have "n < 2 * 2 ^ bit_length (n div 2)" by linarith
    ultimately show ?thesis by (simp add: b)
  qed
qed

lemma bit_length_unique:
  assumes "2 ^ b \<le> n" and "n < 2 ^ Suc b"
  shows "bit_length n = Suc b"
proof -
  from assms(1) have nz: "n \<noteq> 0" by (cases "n = 0") auto
  from bit_length_bounds [OF nz] have l: "2 ^ (bit_length n - 1) \<le> n" and u: "n < 2 ^ bit_length n"
    by simp_all
  from assms(1) u have "(2::nat) ^ b < 2 ^ bit_length n" by linarith
  then have 1: "b < bit_length n" by simp
  from l assms(2) have "(2::nat) ^ (bit_length n - 1) < 2 ^ Suc b" by linarith
  then have "bit_length n - 1 < Suc b" by (rule power_less_imp_less_exp [rotated]) simp
  with 1 show ?thesis by linarith
qed

lemma ulp_exponent_normal:
  assumes "2 ^ 52 \<le> \<bar>x\<bar> * 2 powi k" and "\<bar>x\<bar> * 2 powi k < 2 ^ 53" and "k \<le> 1074"
  shows "ulp_exponent x = - k"
proof -
  define j where "j = nat (1074 - k)"
  have jk: "int j = 1074 - k" using assms(3) by (simp add: j_def)
  have p: "(2::real) ^ 1074 = 2 powi k * 2 ^ j"
  proof -
    have "(2::real) powi k * 2 ^ j = 2 powi k * 2 powi (int j)" by (simp only: power_int_of_nat)
    also have "\<dots> = 2 powi (k + int j)" by (simp add: power_int_add)
    also have "\<dots> = 2 powi (int 1074)" by (simp add: jk)
    also have "\<dots> = 2 ^ 1074" by (simp only: power_int_of_nat)
    finally show ?thesis by (rule sym)
  qed
  let ?y = "\<bar>x\<bar> * 2 ^ 1074"
  have y: "?y = (\<bar>x\<bar> * 2 powi k) * 2 ^ j" by (simp only: p mult.assoc)
  have lo: "2 ^ (52 + j) \<le> ?y"
    unfolding y power_add using assms(1) by (intro mult_right_mono) simp_all
  have hi: "?y < 2 ^ (53 + j)"
    unfolding y power_add using assms(2) by (intro mult_strict_right_mono) simp_all
  have flo: "(2::int) ^ (52 + j) \<le> \<lfloor>?y\<rfloor>"
  proof -
    have "of_int ((2::int) ^ (52 + j)) \<le> ?y" using lo by simp
    then show ?thesis by (simp only: le_floor_iff)
  qed
  have fhi: "\<lfloor>?y\<rfloor> < (2::int) ^ (53 + j)"
  proof -
    have "?y < of_int ((2::int) ^ (53 + j))" using hi by simp
    then show ?thesis by (simp only: floor_less_iff)
  qed
  have nlo: "2 ^ (52 + j) \<le> nat \<lfloor>?y\<rfloor>"
  proof -
    have "int (2 ^ (52 + j)) \<le> \<lfloor>?y\<rfloor>" using flo by simp
    then show ?thesis by linarith
  qed
  have nhi: "nat \<lfloor>?y\<rfloor> < 2 ^ Suc (52 + j)"
  proof -
    have "\<lfloor>?y\<rfloor> < int (2 ^ (53 + j))" using fhi by simp
    then show ?thesis by simp
  qed
  from bit_length_unique [OF nlo nhi] have "bit_length (nat \<lfloor>?y\<rfloor>) = 53 + j" by simp
  then have "int (bit_length (nat \<lfloor>?y\<rfloor>)) - 1127 = - k" using jk by simp
  moreover have "- k \<ge> - 1074" using assms(3) by simp
  ultimately show ?thesis by (simp add: ulp_exponent_def)
qed

lemma round_double_normal:
  assumes "2 ^ 52 \<le> \<bar>x\<bar> * 2 powi k" and "\<bar>x\<bar> * 2 powi k < 2 ^ 53" and "k \<le> 1074"
  shows "round_double x = of_int (round_half_even (x * 2 powi k)) * 2 powi (- k)"
  using ulp_exponent_normal [OF assms] by (simp add: round_double_def)


lemma round_double_0: "round_double 0 = 0"
  by (simp add: round_double_def ulp_exponent_def bit_length.simps round_half_even_def)

lemma round_double_2: "round_double 2 = 2"
  using round_double_normal [of 2 51]
  by (simp add: round_half_even_def Let_def power_int_minus)


text \<open>
  The doubles nearest to 25.4, 27.4 and 27.41, and the double just below 1.5, which Python
  prints as \<^verbatim>\<open>1.4999999999999998\<close>.
\<close>

definition d_25_4 :: real where "d_25_4 = 7149464408450662 / 2 ^ 48"
definition d_27_4 :: real where "d_27_4 = 7712414361871974 / 2 ^ 48"
definition d_27_41 :: real where "d_27_41 = 7715229111639081 / 2 ^ 48"
definition d_below_1_5 :: real where "d_below_1_5 = 6755399441055743 / 2 ^ 52"

lemma float_literal_25_4: "float_literal 25.4 = PFloat (Fin d_25_4)"
  using round_double_normal [of "25.4" 48]
  by (simp add: float_literal_def to_float_def round_half_even_def Let_def power_int_minus d_25_4_def)

lemma float_literal_27_4: "float_literal 27.4 = PFloat (Fin d_27_4)"
  using round_double_normal [of "27.4" 48]
  by (simp add: float_literal_def to_float_def round_half_even_def Let_def power_int_minus d_27_4_def)

lemma float_literal_27_41: "float_literal 27.41 = PFloat (Fin d_27_41)"
  using round_double_normal [of "27.41" 48]
  by (simp add: float_literal_def to_float_def round_half_even_def Let_def power_int_minus d_27_41_def)

lemma float_literal_below_1_5: "float_literal 1.4999999999999998 = PFloat (Fin d_below_1_5)"
  using round_double_normal [of "1.4999999999999998" 52]
  by (simp add: float_literal_def to_float_def round_half_even_def Let_def power_int_minus
      d_below_1_5_def)

lemma float_literal_3_5: "float_literal 3.5 = PFloat (Fin (7 / 2))"
  using round_double_normal [of "3.5" 51]
  by (simp add: float_literal_def to_float_def round_half_even_def Let_def power_int_minus)

lemma sub_27_4: "to_float (d_27_4 - d_25_4) = Fin 2"
  using round_double_normal [of 2 51]
  by (simp add: to_float_def round_half_even_def Let_def power_int_minus d_27_4_def d_25_4_def)

lemma sub_27_41: "\<exists>d. to_float (d_27_41 - d_25_4) = Fin d \<and> d > 2"
  using round_double_normal [of "d_27_41 - d_25_4" 51]
  by (simp add: to_float_def round_half_even_def Let_def power_int_minus d_27_41_def d_25_4_def)

lemma sub_tie: "to_float (7 / 2 - d_below_1_5) = Fin 2"
  using round_double_normal [of "7 / 2 - d_below_1_5" 51]
  by (simp add: to_float_def round_half_even_def Let_def power_int_minus d_below_1_5_def)

subsection \<open>What a side check decides\<close>

text \<open>
  The numbers for which the evaluator returns: finite floats, and ints that convert to a
  float. \<open>float_value\<close> is the operand as the subtraction sees it when the other operand is
  a float, \<open>exact_value\<close> the number itself.
\<close>

definition plain :: "pynum \<Rightarrow> bool" where
  "plain n =
     (case n of
        PInt i \<Rightarrow> \<bar>round_double (of_int i)\<bar> < 2 ^ 1024
      | PFloat (Fin x) \<Rightarrow> True
      | PFloat _ \<Rightarrow> False)"

definition float_value :: "pynum \<Rightarrow> real" where
  "float_value n =
     (case n of PInt i \<Rightarrow> round_double (of_int i) | PFloat (Fin x) \<Rightarrow> x | PFloat _ \<Rightarrow> 0)"

definition exact_value :: "pynum \<Rightarrow> real" where
  "exact_value n = (case n of PInt i \<Rightarrow> of_int i | PFloat (Fin x) \<Rightarrow> x | PFloat _ \<Rightarrow> 0)"

definition tolerance_ok :: "pynum \<Rightarrow> bool" where
  "tolerance_ok tol =
     (case tol of
        PInt i \<Rightarrow> of_int i < (2 :: real) ^ 1024
      | PFloat (Fin x) \<Rightarrow> x < 2 ^ 1024
      | PFloat _ \<Rightarrow> False)"

text \<open>
  The difference as Python computes it: exact on two ints, otherwise the exact difference
  of the two doubles rounded to a double.
\<close>

definition computed_difference :: "pynum \<Rightarrow> pynum \<Rightarrow> real" where
  "computed_difference a e =
     (case (a, e) of
        (PInt i, PInt j) \<Rightarrow> of_int (i - j)
      | _ \<Rightarrow> round_double (float_value a - float_value e))"

lemma plain_cases:
  assumes "plain n"
  obtains i where "n = PInt i" and "\<bar>round_double (of_int i)\<bar> < 2 ^ 1024"
  | x where "n = PFloat (Fin x)"
proof (cases n)
  case (PInt i)
  with assms that(1) show ?thesis by (simp add: plain_def)
next
  case (PFloat f)
  with assms that(2) show ?thesis by (cases f) (simp_all add: plain_def)
qed

lemma tolerance_cases:
  assumes "tolerance_ok tol"
  obtains x where "exact tol = Fin x" and "exact_value tol = x" and "x < 2 ^ 1024"
proof (cases tol)
  case (PInt i)
  with assms that show ?thesis by (simp add: tolerance_ok_def exact_def exact_value_def)
next
  case (PFloat f)
  with assms that show ?thesis
    by (cases f) (simp_all add: tolerance_ok_def exact_def exact_value_def)
qed

lemma as_float_plain: "plain n \<Longrightarrow> as_float n = Inr (Fin (float_value n))"
  by (erule plain_cases) (simp_all add: as_float_def float_value_def Let_def)

lemma exact_float: "exact (PFloat f) = f"
  by (simp add: exact_def)

lemma exact_int: "exact (PInt i) = Fin (of_int i)"
  by (simp add: exact_def)

lemma gt_abs_int:
  assumes "tolerance_ok tol"
  shows "py_gt (py_abs (PInt k)) tol = (\<bar>of_int k\<bar> > exact_value tol)"
  using assms by (elim tolerance_cases) (simp add: py_gt_def py_abs_def exact_int)

lemma gt_abs_float:
  assumes "tolerance_ok tol"
  shows "py_gt (py_abs (PFloat (to_float x))) tol = (\<bar>round_double x\<bar> > exact_value tol)"
proof -
  from assms obtain t where e: "exact tol = Fin t" and v: "exact_value tol = t"
    and b: "t < 2 ^ 1024" by (rule tolerance_cases)
  consider "round_double x \<ge> 2 ^ 1024" | "round_double x \<le> - (2 ^ 1024)"
    | "\<not> round_double x \<ge> 2 ^ 1024" and "\<not> round_double x \<le> - (2 ^ 1024)" by blast
  then show ?thesis
  proof cases
    case 1
    with b have "\<bar>round_double x\<bar> > t" by linarith
    with 1 show ?thesis by (simp add: to_float_def Let_def py_abs_def py_gt_def exact_float e v)
  next
    case 2
    have p: "(0::real) < 2 ^ 1024" by simp
    from 2 p have n: "\<not> round_double x \<ge> 2 ^ 1024" by linarith
    from 2 b have "\<bar>round_double x\<bar> > t" by linarith
    with 2 n show ?thesis by (simp add: to_float_def Let_def py_abs_def py_gt_def exact_float e v)
  next
    case 3
    then show ?thesis by (simp add: to_float_def Let_def py_abs_def py_gt_def exact_float e v)
  qed
qed

lemma exceeds_plain:
  assumes "plain a" and "plain e" and "tolerance_ok tol"
  shows "exceeds a e tol = Inr (\<bar>computed_difference a e\<bar> > exact_value tol)"
proof -
  note f = as_float_plain [OF assms(1)] as_float_plain [OF assms(2)]
  show ?thesis
  proof (cases "\<exists>i j. a = PInt i \<and> e = PInt j")
    case True
    then obtain i j where "a = PInt i" and "e = PInt j" by blast
    then show ?thesis
      by (simp add: exceeds_def py_sub_def bind_err_def computed_difference_def
          gt_abs_int [OF assms(3)])
  next
    case False
    with f have s: "py_sub a e = Inr (PFloat (to_float (float_value a - float_value e)))"
      by (cases a; cases e) (simp_all add: py_sub_def bind_err_def)
    from False have c: "computed_difference a e = round_double (float_value a - float_value e)"
      by (cases a; cases e) (simp_all add: computed_difference_def)
    show ?thesis
      by (simp add: exceeds_def s c bind_err_def gt_abs_float [OF assms(3)])
  qed
qed


subsection \<open>What the page evaluator decides\<close>

text \<open>
  The margins of a target, each side under its own key, with no key at all when the target
  has no page settings or no margins; and the tolerance of a condition.
\<close>

definition page_margins :: "target \<Rightarrow> margins" where
  "page_margins t =
     (case t_page_settings t of
        None \<Rightarrow> \<lparr> m_top_mm = None, m_bottom_mm = None, m_left_mm = None, m_right_mm = None \<rparr>
      | Some ps \<Rightarrow>
          (case p_margins ps of
             None \<Rightarrow> \<lparr> m_top_mm = None, m_bottom_mm = None, m_left_mm = None, m_right_mm = None \<rparr>
           | Some m \<Rightarrow> m))"

definition page_tolerance :: "condition \<Rightarrow> pynum" where
  "page_tolerance c = (case c_tolerance_mm c of None \<Rightarrow> PFloat (Fin (1 / 2)) | Some tol \<Rightarrow> tol)"

text \<open>
  A side is off when the condition constrains it and the absolute value of the computed
  difference between the actual margin (0 when the document has none) and the expected
  one is greater than the tolerance.
\<close>

definition off_by_more :: "pynum \<Rightarrow> pynum option \<Rightarrow> pynum option \<Rightarrow> bool" where
  "off_by_more tol expected actual =
     (case expected of
        None \<Rightarrow> False
      | Some e \<Rightarrow>
          \<bar>computed_difference (case actual of None \<Rightarrow> PInt 0 | Some a \<Rightarrow> a) e\<bar>
            > exact_value tol)"

definition some_side_off :: "condition \<Rightarrow> target \<Rightarrow> bool" where
  "some_side_off c t =
     (off_by_more (page_tolerance c) (c_top_mm c) (m_top_mm (page_margins t))
      \<or> off_by_more (page_tolerance c) (c_bottom_mm c) (m_bottom_mm (page_margins t))
      \<or> off_by_more (page_tolerance c) (c_left_mm c) (m_left_mm (page_margins t))
      \<or> off_by_more (page_tolerance c) (c_right_mm c) (m_right_mm (page_margins t)))"

definition plain_or_absent :: "pynum option \<Rightarrow> bool" where
  "plain_or_absent v = (case v of None \<Rightarrow> True | Some n \<Rightarrow> plain n)"

definition page_numbers_plain :: "condition \<Rightarrow> target \<Rightarrow> bool" where
  "page_numbers_plain c t =
     (tolerance_ok (page_tolerance c)
      \<and> list_all plain_or_absent
          [c_top_mm c, c_bottom_mm c, c_left_mm c, c_right_mm c,
           m_top_mm (page_margins t), m_bottom_mm (page_margins t),
           m_left_mm (page_margins t), m_right_mm (page_margins t)])"

lemma plain_0: "plain (PInt 0)"
  by (simp add: plain_def round_double_0)

lemma actual_margin_page_margins:
  "actual_margin t side = (case side (page_margins t) of None \<Rightarrow> PInt 0 | Some a \<Rightarrow> a)"
  if "side \<lparr> m_top_mm = None, m_bottom_mm = None, m_left_mm = None, m_right_mm = None \<rparr> = None"
  using that by (simp add: actual_margin_def page_margins_def get_or_def split: option.splits)

lemma side_fails_plain:
  assumes "tolerance_ok tol" and "plain_or_absent expected" and "plain_or_absent actual"
  shows "side_fails tol expected (case actual of None \<Rightarrow> PInt 0 | Some a \<Rightarrow> a)
           = Inr (off_by_more tol expected actual)"
proof (cases expected)
  case None
  then show ?thesis by (simp add: side_fails_def off_by_more_def)
next
  case (Some e)
  with assms(2) have e: "plain e" by (simp add: plain_or_absent_def)
  from assms(3) have a: "plain (case actual of None \<Rightarrow> PInt 0 | Some a \<Rightarrow> a)"
    by (cases actual) (simp_all add: plain_or_absent_def plain_0)
  from exceeds_plain [OF a e assms(1)] Some show ?thesis
    by (simp add: side_fails_def off_by_more_def)
qed

lemma check_sides_plain:
  assumes "page_numbers_plain c t"
  shows "check_sides (page_tolerance c)
              [(c_top_mm c, actual_margin t m_top_mm),
               (c_bottom_mm c, actual_margin t m_bottom_mm),
               (c_left_mm c, actual_margin t m_left_mm),
               (c_right_mm c, actual_margin t m_right_mm)]
           = Inr (\<not> some_side_off c t)"
proof -
  from assms have tol: "tolerance_ok (page_tolerance c)"
    and p: "plain_or_absent (c_top_mm c)" "plain_or_absent (c_bottom_mm c)"
      "plain_or_absent (c_left_mm c)" "plain_or_absent (c_right_mm c)"
      "plain_or_absent (m_top_mm (page_margins t))" "plain_or_absent (m_bottom_mm (page_margins t))"
      "plain_or_absent (m_left_mm (page_margins t))" "plain_or_absent (m_right_mm (page_margins t))"
    by (simp_all add: page_numbers_plain_def)
  have s1: "side_fails (page_tolerance c) (c_top_mm c) (actual_margin t m_top_mm)
              = Inr (off_by_more (page_tolerance c) (c_top_mm c) (m_top_mm (page_margins t)))"
    using side_fails_plain [OF tol p(1) p(5)] by (simp add: actual_margin_page_margins)
  have s2: "side_fails (page_tolerance c) (c_bottom_mm c) (actual_margin t m_bottom_mm)
              = Inr (off_by_more (page_tolerance c) (c_bottom_mm c) (m_bottom_mm (page_margins t)))"
    using side_fails_plain [OF tol p(2) p(6)] by (simp add: actual_margin_page_margins)
  have s3: "side_fails (page_tolerance c) (c_left_mm c) (actual_margin t m_left_mm)
              = Inr (off_by_more (page_tolerance c) (c_left_mm c) (m_left_mm (page_margins t)))"
    using side_fails_plain [OF tol p(3) p(7)] by (simp add: actual_margin_page_margins)
  have s4: "side_fails (page_tolerance c) (c_right_mm c) (actual_margin t m_right_mm)
              = Inr (off_by_more (page_tolerance c) (c_right_mm c) (m_right_mm (page_margins t)))"
    using side_fails_plain [OF tol p(4) p(8)] by (simp add: actual_margin_page_margins)
  show ?thesis by (simp add: s1 s2 s3 s4 bind_err_def some_side_off_def)
qed

lemma page_tolerance_eq: "get_or (c_tolerance_mm c) (PFloat (Fin (1 / 2))) = page_tolerance c"
  by (simp add: get_or_def page_tolerance_def)

lemma page_fails_when_off:
  assumes "page_numbers_plain c t" and "some_side_off c t"
  shows "match_page_condition t c = Inr False"
  unfolding match_page_condition_def Let_def page_tolerance_eq check_sides_plain [OF assms(1)]
  using assms(2) by (simp add: bind_err_def)

lemma page_margins_only:
  assumes "page_numbers_plain c t" and "c_paper_name c = None"
  shows "match_page_condition t c = Inr (\<not> some_side_off c t)"
  unfolding match_page_condition_def Let_def page_tolerance_eq check_sides_plain [OF assms(1)]
  using assms(2) by (simp add: bind_err_def)

text \<open>The two documents of the boundary example, and the tie.\<close>

lemma exceeds_27_41:
  "tol = PInt 2 \<or> tol = PFloat (Fin 2) \<Longrightarrow>
   exceeds (float_literal 27.41) (float_literal 25.4) tol = Inr True"
  unfolding float_literal_27_41 float_literal_25_4
  using sub_27_41
  by (auto simp: exceeds_def py_sub_def as_float_def bind_err_def py_abs_def py_gt_def exact_def)

lemma exceeds_27_4:
  "tol = PInt 2 \<or> tol = PFloat (Fin 2) \<Longrightarrow>
   exceeds (float_literal 27.4) (float_literal 25.4) tol = Inr False"
  unfolding float_literal_27_4 float_literal_25_4
  by (auto simp: exceeds_def py_sub_def as_float_def bind_err_def sub_27_4 py_abs_def py_gt_def
      exact_def)

lemma exceeds_tie:
  "tol = PInt 2 \<or> tol = PFloat (Fin 2) \<Longrightarrow>
   exceeds (float_literal 3.5) (float_literal 1.4999999999999998) tol = Inr False"
  unfolding float_literal_3_5 float_literal_below_1_5
  by (auto simp: exceeds_def py_sub_def as_float_def bind_err_def sub_tie py_abs_def py_gt_def
      exact_def)

lemma top_only:
  assumes "c_bottom_mm c = None" and "c_left_mm c = None" and "c_right_mm c = None"
    and "c_paper_name c = None" and "c_top_mm c = Some e"
    and "exceeds (actual_margin t m_top_mm) e (page_tolerance c) = Inr b"
  shows "match_page_condition t c = Inr (\<not> b)"
  unfolding match_page_condition_def Let_def page_tolerance_eq
  using assms by (simp add: side_fails_def bind_err_def)

lemma top_fails:
  assumes "c_top_mm c = Some e"
    and "exceeds (actual_margin t m_top_mm) e (page_tolerance c) = Inr True"
  shows "match_page_condition t c = Inr False"
  unfolding match_page_condition_def Let_def page_tolerance_eq
  using assms by (simp add: side_fails_def bind_err_def)

lemma actual_top:
  "m_top_mm (page_margins t) = Some a \<Longrightarrow> actual_margin t m_top_mm = a"
  by (simp add: actual_margin_page_margins)

text \<open>
  C6 (as amended). For finite numbers, a page condition fails whenever a side that it
  constrains is off: the absolute value of the difference between the actual and the
  expected margin of that side, as Python computes it (exactly on two ints, otherwise
  rounded to the nearest double, ties to even), is greater than the tolerance, compared
  exactly and strictly. When the condition has no paper size it passes exactly when no side
  is off. With an expected top margin of 25.4 mm and a tolerance of 2 mm, an actual top
  margin of 27.41 mm fails and one of 27.4 mm passes (no other side being constrained),
  the three margins being the doubles nearest to these decimal numbers.
\<close>

theorem page_margin_tolerance:
  "(page_numbers_plain c t \<longrightarrow>
      (some_side_off c t \<longrightarrow> match_page_condition t c = Inr False)
      \<and> (c_paper_name c = None \<longrightarrow> match_page_condition t c = Inr (\<not> some_side_off c t)))
   \<and> (c_top_mm c = Some (float_literal 25.4)
        \<and> (c_tolerance_mm c = Some (PInt 2) \<or> c_tolerance_mm c = Some (PFloat (Fin 2))) \<longrightarrow>
        (m_top_mm (page_margins t) = Some (float_literal 27.41) \<longrightarrow>
           match_page_condition t c = Inr False)
        \<and> (m_top_mm (page_margins t) = Some (float_literal 27.4) \<and> c_bottom_mm c = None
             \<and> c_left_mm c = None \<and> c_right_mm c = None \<and> c_paper_name c = None \<longrightarrow>
           match_page_condition t c = Inr True))"
proof (intro conjI impI)
  assume "page_numbers_plain c t" and "some_side_off c t"
  then show "match_page_condition t c = Inr False" by (rule page_fails_when_off)
next
  assume "page_numbers_plain c t" and "c_paper_name c = None"
  then show "match_page_condition t c = Inr (\<not> some_side_off c t)" by (rule page_margins_only)
next
  assume c: "c_top_mm c = Some (float_literal 25.4)
        \<and> (c_tolerance_mm c = Some (PInt 2) \<or> c_tolerance_mm c = Some (PFloat (Fin 2)))"
    and a: "m_top_mm (page_margins t) = Some (float_literal 27.41)"
  from c have tol: "page_tolerance c = PInt 2 \<or> page_tolerance c = PFloat (Fin 2)"
    by (auto simp: page_tolerance_def)
  from c have e: "c_top_mm c = Some (float_literal 25.4)" by simp
  show "match_page_condition t c = Inr False"
    using top_fails [OF e] exceeds_27_41 [OF tol] by (simp only: actual_top [OF a])
next
  assume c: "c_top_mm c = Some (float_literal 25.4)
        \<and> (c_tolerance_mm c = Some (PInt 2) \<or> c_tolerance_mm c = Some (PFloat (Fin 2)))"
    and a: "m_top_mm (page_margins t) = Some (float_literal 27.4) \<and> c_bottom_mm c = None
             \<and> c_left_mm c = None \<and> c_right_mm c = None \<and> c_paper_name c = None"
  from c have tol: "page_tolerance c = PInt 2 \<or> page_tolerance c = PFloat (Fin 2)"
    by (auto simp: page_tolerance_def)
  from c have e: "c_top_mm c = Some (float_literal 25.4)" by simp
  from a have top: "m_top_mm (page_margins t) = Some (float_literal 27.4)" by simp
  from a have n: "c_bottom_mm c = None" "c_left_mm c = None" "c_right_mm c = None"
    "c_paper_name c = None" by simp_all
  have "exceeds (actual_margin t m_top_mm) (float_literal 25.4) (page_tolerance c) = Inr False"
    using exceeds_27_4 [OF tol] by (simp only: actual_top [OF top])
  from top_only [OF n e this] show "match_page_condition t c = Inr True" by simp
qed


definition ex_page_condition :: condition where
  "ex_page_condition =
     empty_condition \<lparr> c_top_mm := Some (float_literal 25.4), c_tolerance_mm := Some (PInt 2) \<rparr>"

definition ex_left_condition :: condition where
  "ex_left_condition =
     empty_condition \<lparr> c_left_mm := Some (PFloat (Fin 32)), c_tolerance_mm := Some (PInt 2) \<rparr>"

definition ex_page :: "pynum \<Rightarrow> pynum \<Rightarrow> target" where
  "ex_page top_mm left_mm =
     empty_target \<lparr> t_page_settings := Some \<lparr> p_margins = Some \<lparr> m_top_mm = Some top_mm,
       m_bottom_mm = Some (PFloat (Fin 25)), m_left_mm = Some left_mm,
       m_right_mm = Some (PFloat (Fin 32)) \<rparr>, p_paper_size = None \<rparr> \<rparr>"

lemma round_double_4: "round_double 4 = 4"
  using round_double_normal [of 4 50]
  by (simp add: round_half_even_def Let_def power_int_minus)

lemma ex_page_margins:
  "page_margins (ex_page top_mm left_mm) = \<lparr> m_top_mm = Some top_mm,
       m_bottom_mm = Some (PFloat (Fin 25)), m_left_mm = Some left_mm,
       m_right_mm = Some (PFloat (Fin 32)) \<rparr>"
  by (simp add: page_margins_def ex_page_def empty_target_def)

lemma ex_page_plain:
  "plain top_mm \<Longrightarrow> plain left_mm \<Longrightarrow>
   page_numbers_plain ex_page_condition (ex_page top_mm left_mm)
   \<and> page_numbers_plain ex_left_condition (ex_page top_mm left_mm)"
  unfolding page_numbers_plain_def ex_page_margins ex_page_condition_def ex_left_condition_def
    float_literal_25_4
  by (simp add: page_tolerance_def tolerance_ok_def plain_or_absent_def plain_def
      empty_condition_def)

lemma plain_float: "plain (PFloat (Fin x))"
  by (simp add: plain_def)

theorem page_margin_tolerance_witness:
  "match_page_condition (ex_page (float_literal 27.4) (PFloat (Fin 32))) ex_page_condition = Inr True
   \<and> match_page_condition (ex_page (float_literal 27.41) (PFloat (Fin 32))) ex_page_condition
       = Inr False
   \<and> some_side_off ex_page_condition (ex_page (float_literal 27.41) (PFloat (Fin 32)))
   \<and> \<not> some_side_off ex_page_condition (ex_page (float_literal 27.4) (PFloat (Fin 32)))
   \<and> page_numbers_plain ex_page_condition (ex_page (float_literal 27.41) (PFloat (Fin 32)))
   \<and> match_page_condition (ex_page (PFloat (Fin 40)) (PFloat (Fin 32))) ex_left_condition = Inr True
   \<and> match_page_condition (ex_page (PFloat (Fin 25)) (PFloat (Fin 36))) ex_left_condition = Inr False
   \<and> some_side_off ex_left_condition (ex_page (PFloat (Fin 25)) (PFloat (Fin 36)))
   \<and> \<not> some_side_off ex_left_condition (ex_page (PFloat (Fin 40)) (PFloat (Fin 32)))"
proof -
  let ?pass = "ex_page (float_literal 27.4) (PFloat (Fin 32))"
  let ?fail = "ex_page (float_literal 27.41) (PFloat (Fin 32))"
  have c: "c_top_mm ex_page_condition = Some (float_literal 25.4)"
    "c_tolerance_mm ex_page_condition = Some (PInt 2)"
    "c_bottom_mm ex_page_condition = None" "c_left_mm ex_page_condition = None"
    "c_right_mm ex_page_condition = None" "c_paper_name ex_page_condition = None"
    by (simp_all add: ex_page_condition_def empty_condition_def)
  have p1: "page_numbers_plain ex_page_condition ?pass"
    unfolding float_literal_27_4 using ex_page_plain plain_float by blast
  have p2: "page_numbers_plain ex_page_condition ?fail"
    unfolding float_literal_27_41 using ex_page_plain plain_float by blast
  have m1: "m_top_mm (page_margins ?pass) = Some (float_literal 27.4)"
    and m2: "m_top_mm (page_margins ?fail) = Some (float_literal 27.41)"
    by (simp_all only: ex_page_margins margins.simps)
  from page_margin_tolerance [of ex_page_condition ?pass] c m1
  have r1: "match_page_condition ?pass ex_page_condition = Inr True" by blast
  from page_margin_tolerance [of ex_page_condition ?fail] c m2
  have r2: "match_page_condition ?fail ex_page_condition = Inr False" by blast
  from page_margin_tolerance [of ex_page_condition ?pass] p1 c(6) r1
  have s1: "\<not> some_side_off ex_page_condition ?pass" by simp
  from page_margin_tolerance [of ex_page_condition ?fail] p2 c(6) r2
  have s2: "some_side_off ex_page_condition ?fail" by simp
  let ?far = "ex_page (PFloat (Fin 40)) (PFloat (Fin 32))"
  let ?left = "ex_page (PFloat (Fin 25)) (PFloat (Fin 36))"
  have l: "c_paper_name ex_left_condition = None"
    by (simp add: ex_left_condition_def empty_condition_def)
  have p3: "page_numbers_plain ex_left_condition ?far"
    and p4: "page_numbers_plain ex_left_condition ?left"
    using ex_page_plain plain_float by blast+
  have s3: "\<not> some_side_off ex_left_condition ?far"
    by (simp add: some_side_off_def ex_page_margins ex_left_condition_def empty_condition_def
        off_by_more_def page_tolerance_def computed_difference_def float_value_def
        exact_value_def round_double_0)
  have s4: "some_side_off ex_left_condition ?left"
    by (simp add: some_side_off_def ex_page_margins ex_left_condition_def empty_condition_def
        off_by_more_def page_tolerance_def computed_difference_def float_value_def
        exact_value_def round_double_4)
  from page_margin_tolerance [of ex_left_condition ?far] p3 l s3
  have r3: "match_page_condition ?far ex_left_condition = Inr True" by simp
  from page_margin_tolerance [of ex_left_condition ?left] p4 s4
  have r4: "match_page_condition ?left ex_left_condition = Inr False" by blast
  from r1 r2 s1 s2 p2 r3 r4 s3 s4 show ?thesis by blast
qed

text \<open>
  C6 (as stated) fails in its general half: the test is made on the difference computed in
  double precision, not on the exact difference. With an expected top margin of
  \<^verbatim>\<open>1.4999999999999998\<close> (the double just below 1.5) and a tolerance of 2, an actual
  top margin of 3.5 passes, although the two doubles differ by more than 2: their exact
  difference is 2 plus one part in \<open>2 ^ 52\<close>, halfway between the double 2 and the next
  double above it, and is rounded to 2.
\<close>

theorem exact_difference_not_decisive:
  "match_page_condition (ex_page (float_literal 3.5) (PFloat (Fin 32)))
      (empty_condition \<lparr> c_top_mm := Some (float_literal 1.4999999999999998),
                         c_tolerance_mm := Some (PInt 2) \<rparr>) = Inr True
   \<and> float_literal 3.5 = PFloat (Fin (7 / 2))
   \<and> float_literal 1.4999999999999998 = PFloat (Fin (6755399441055743 / 2 ^ 52))
   \<and> \<bar>7 / 2 - 6755399441055743 / 2 ^ 52\<bar> > (2 :: real)"
proof -
  let ?c = "empty_condition \<lparr> c_top_mm := Some (float_literal 1.4999999999999998),
                         c_tolerance_mm := Some (PInt 2) \<rparr>"
  let ?t = "ex_page (float_literal 3.5) (PFloat (Fin 32))"
  have n: "c_bottom_mm ?c = None" "c_left_mm ?c = None" "c_right_mm ?c = None"
    "c_paper_name ?c = None" "c_top_mm ?c = Some (float_literal 1.4999999999999998)"
    by (simp_all add: empty_condition_def)
  have tol: "page_tolerance ?c = PInt 2 \<or> page_tolerance ?c = PFloat (Fin 2)"
    by (simp add: page_tolerance_def)
  have top: "m_top_mm (page_margins ?t) = Some (float_literal 3.5)"
    by (simp only: ex_page_margins margins.simps)
  have "exceeds (actual_margin ?t m_top_mm) (float_literal 1.4999999999999998) (page_tolerance ?c)
          = Inr False"
    using exceeds_tie [OF tol] by (simp only: actual_top [OF top])
  from top_only [OF n this] have "match_page_condition ?t ?c = Inr True" by simp
  moreover have "float_literal 1.4999999999999998 = PFloat (Fin (6755399441055743 / 2 ^ 52))"
    unfolding float_literal_below_1_5 d_below_1_5_def ..
  moreover have "\<bar>7 / 2 - 6755399441055743 / 2 ^ 52\<bar> > (2 :: real)" by simp
  ultimately show ?thesis using float_literal_3_5 by blast
qed


end
